theory Spec2Isabelle
  imports Complex_Main "HOL-Library.Word" "HOL-Library.Log_Nat"
begin

unbundle bit_operations_syntax

section \<open>Numbers\<close>

text \<open>
  Audio samples, energies, features and scaler entries are JavaScript numbers; finite ones
  are modelled as real numbers (rounding is not modelled). The score vector that the worker
  sends back to the realtime loop is checked by the loop with \<^verbatim>\<open>isFinite\<close>, so
  its entries keep the non-finite values apart.
\<close>

datatype jsnum = Num real | PosInf | NegInf | NaN

fun isFinite :: "jsnum \<Rightarrow> bool" where
  "isFinite (Num r) = True"
| "isFinite v = False"

text \<open>\<^verbatim>\<open>a > b\<close> on numbers: false whenever an operand is NaN.\<close>

fun js_gt :: "jsnum \<Rightarrow> jsnum \<Rightarrow> bool" where
  "js_gt NaN b = False"
| "js_gt a NaN = False"
| "js_gt NegInf b = False"
| "js_gt a NegInf = True"
| "js_gt a PosInf = False"
| "js_gt PosInf b = True"
| "js_gt (Num x) (Num y) = (x > y)"

text \<open>\<^verbatim>\<open>a >= b\<close> on numbers.\<close>

fun js_ge :: "jsnum \<Rightarrow> jsnum \<Rightarrow> bool" where
  "js_ge NaN b = False"
| "js_ge a NaN = False"
| "js_ge a NegInf = True"
| "js_ge PosInf b = True"
| "js_ge NegInf b = False"
| "js_ge a PosInf = False"
| "js_ge (Num x) (Num y) = (x \<ge> y)"

text \<open>\<^verbatim>\<open>v / sum\<close> for a finite \<^verbatim>\<open>sum\<close> that is positive.\<close>

fun js_div_pos :: "jsnum \<Rightarrow> real \<Rightarrow> jsnum" where
  "js_div_pos (Num x) s = Num (x / s)"
| "js_div_pos v s = v"

section \<open>The realtime loop (main.ts)\<close>

subsection \<open>Configuration knobs\<close>

definition VAD_ENTER :: real where "VAD_ENTER = 5 / 1000"
definition VAD_EXIT :: real where "VAD_EXIT = 3 / 1000"
definition CONF_THRESHOLD :: real where "CONF_THRESHOLD = 40 / 100"
definition PRED_WINDOW :: nat where "PRED_WINDOW = 5"
definition REQUIRE_VAD :: bool where "REQUIRE_VAD = True"

subsection \<open>Utilities\<close>

text \<open>
  \<^verbatim>\<open>rms\<close>: the loop adds \<^verbatim>\<open>v * v\<close> to \<^verbatim>\<open>s\<close> from left to right, then
  \<^verbatim>\<open>Math.sqrt(s / Math.max(1, x.length))\<close>.
\<close>

fun rms_loop :: "real list \<Rightarrow> real \<Rightarrow> real" where
  "rms_loop [] s = s"
| "rms_loop (v # x) s = rms_loop x (s + v * v)"

definition rms_divisor :: "real list \<Rightarrow> real" where
  "rms_divisor x = max 1 (real (length x))"

definition rms :: "real list \<Rightarrow> real" where
  "rms x = sqrt (rms_loop x 0 / rms_divisor x)"

text \<open>
  \<^verbatim>\<open>argmax\<close>: \<^verbatim>\<open>bi = 0, bv = -Infinity\<close>, and a strictly greater entry replaces
  the best so far.
\<close>

fun argmax_loop :: "jsnum list \<Rightarrow> nat \<Rightarrow> nat \<times> jsnum \<Rightarrow> nat \<times> jsnum" where
  "argmax_loop [] i (bi, bv) = (bi, bv)"
| "argmax_loop (x # v) i (bi, bv) =
     argmax_loop v (Suc i) (if js_gt x bv then (i, x) else (bi, bv))"

definition argmax :: "jsnum list \<Rightarrow> nat \<times> jsnum" where
  "argmax v = argmax_loop v 0 (0, NegInf)"

text \<open>\<^verbatim>\<open>pushPred\<close>: append, then drop the oldest entry when the window is exceeded.\<close>

definition pushPred :: "int list \<Rightarrow> int \<Rightarrow> int list" where
  "pushPred lastPreds idx =
     (let l = lastPreds @ [idx] in if length l > PRED_WINDOW then tl l else l)"

text \<open>
  \<^verbatim>\<open>majority\<close> counts into a \<^verbatim>\<open>Map\<close>, which iterates in insertion order: the
  map is an association list in which \<^verbatim>\<open>set\<close> on a present key keeps the key's
  position and \<^verbatim>\<open>set\<close> on a new key appends it.
\<close>

fun map_set :: "(int \<times> int) list \<Rightarrow> int \<Rightarrow> int \<Rightarrow> (int \<times> int) list" where
  "map_set [] k v = [(k, v)]"
| "map_set ((k', v') # m) k v = (if k' = k then (k, v) # m else (k', v') # map_set m k v)"

definition map_get_or0 :: "(int \<times> int) list \<Rightarrow> int \<Rightarrow> int" where
  "map_get_or0 m k = (case map_of m k of None \<Rightarrow> 0 | Some c \<Rightarrow> c)"

definition count_step :: "(int \<times> int) list \<Rightarrow> int \<Rightarrow> (int \<times> int) list" where
  "count_step counts i = map_set counts i (map_get_or0 counts i + 1)"

fun best_step :: "int \<times> int \<Rightarrow> int \<times> int \<Rightarrow> int \<times> int" where
  "best_step (best, bestC) (k, c) = (if c > bestC then (k, c) else (best, bestC))"

definition majority :: "int list \<Rightarrow> int option" where
  "majority lastPreds =
     (if lastPreds = [] then None
      else Some (fst (foldl best_step (- 1, - 1) (foldl count_step [] lastPreds))))"

text \<open>Position of the first occurrence of a class in the history (its length if absent).\<close>

definition first_pos :: "int list \<Rightarrow> int \<Rightarrow> nat" where
  "first_pos h k = length (takeWhile (\<lambda>y. y \<noteq> k) h)"

text \<open>Order of first occurrence of the classes in the history.\<close>

definition occ :: "int list \<Rightarrow> int list" where
  "occ h = rev (remdups (rev h))"

subsection \<open>State and one tick of the loop\<close>

datatype label = LEFT | RIGHT

text \<open>
  The module variables that \<^verbatim>\<open>livePredictTick\<close> and the button handlers read and
  write; \<open>worker\<close> is whether the worker has been created and \<open>listenTimer\<close> whether
  the interval timer is set.
\<close>

record loop_state =
  worker :: bool
  lastPreds :: "int list"
  inSpeech :: bool
  lastStable :: "label option"
  utteranceFired :: bool
  listenTimer :: bool

text \<open>
  Outcome of \<^verbatim>\<open>await callWorker({action: 'predict', ...})\<close> followed by the
  destructuring of \<^verbatim>\<open>y\<close>: the promise is rejected or the destructuring throws (the
  rest of the tick does not run; a promise that never settles leaves the same state), or
  \<^verbatim>\<open>y\<close> is bound, to an array of numbers or to something else (\<open>None\<close>).
\<close>

datatype reply = Rejected | Resolved "jsnum list option"

text \<open>
  What one tick reads from outside the loop state: the last 0.8 s of captured audio, the
  vector that \<^verbatim>\<open>extractFeaturesMonoFloat32\<close> returns for it, and the outcome of the
  predict call.
\<close>

record tick_input =
  slice :: "real list"
  feats :: "real list"
  reply :: reply

definition resetVotes :: "loop_state \<Rightarrow> loop_state" where
  "resetVotes s = s\<lparr>lastPreds := [], utteranceFired := False\<rparr>"

definition speechNow :: "bool \<Rightarrow> bool \<Rightarrow> real \<Rightarrow> bool" where
  "speechNow requireVad inSp e =
     (\<not> requireVad \<or> (if inSp then e \<ge> VAD_EXIT else e \<ge> VAD_ENTER))"

definition nonZero :: "real list \<Rightarrow> bool" where
  "nonZero fs = list_ex (\<lambda>v. v \<noteq> 0) fs"

definition bad_prediction :: "jsnum list option \<Rightarrow> bool" where
  "bad_prediction y =
     (case y of None \<Rightarrow> True
      | Some v \<Rightarrow> \<not> (length v \<ge> 2 \<and> isFinite (v ! 0) \<and> isFinite (v ! 1)))"

definition finite_sum :: "jsnum list \<Rightarrow> real" where
  "finite_sum y = foldl (\<lambda>a b. a + (case b of Num r \<Rightarrow> r | _ \<Rightarrow> 0)) 0 y"

definition normalize_probs :: "jsnum list \<Rightarrow> jsnum list" where
  "normalize_probs y =
     (let sum = finite_sum y in
      if sum > 1 / 1000000 then map (\<lambda>v. js_div_pos v sum) y else y)"

definition label_of :: "int \<Rightarrow> label" where
  "label_of i = (if i = 0 then LEFT else RIGHT)"

text \<open>
  The part of the tick after the prediction vector has been validated: arg-max, vote,
  majority, and the once-per-utterance firing. The second component is the
  \<^verbatim>\<open>voice-command\<close> event dispatched by the tick, if any.
\<close>

definition vote_and_fire :: "loop_state \<Rightarrow> jsnum list \<Rightarrow> loop_state \<times> label option" where
  "vote_and_fire s y =
     (let probs = normalize_probs y;
          (idx, val) = argmax probs;
          confident = js_ge val (Num CONF_THRESHOLD);
          s1 = (if confident then s\<lparr>lastPreds := pushPred (lastPreds s) (int idx)\<rparr> else s)
      in case majority (lastPreds s1) of
           None \<Rightarrow> (s1, None)
         | Some maj \<Rightarrow>
             if \<not> utteranceFired s1 \<and> confident
             then (s1\<lparr>utteranceFired := True, lastStable := Some (label_of maj)\<rparr>,
                   Some (label_of maj))
             else (s1, None))"

text \<open>The part of the tick that runs while the gate is open.\<close>

definition classify :: "loop_state \<Rightarrow> tick_input \<Rightarrow> loop_state \<times> label option" where
  "classify s inp =
     (if \<not> nonZero (feats inp) then (s, None)
      else case reply inp of
             Rejected \<Rightarrow> (s, None)
           | Resolved y \<Rightarrow>
               if bad_prediction y then (s, None) else vote_and_fire s (the y))"

text \<open>
  \<^verbatim>\<open>livePredictTick\<close>, with the constant \<^verbatim>\<open>REQUIRE_VAD\<close> as a parameter. Each
  tick is taken to run to completion before the next one starts.
\<close>

definition tick_with :: "bool \<Rightarrow> loop_state \<Rightarrow> tick_input \<Rightarrow> loop_state \<times> label option" where
  "tick_with requireVad s inp =
     (if \<not> worker s then (s, None)
      else
        let e = rms (slice inp);
            now = speechNow requireVad (inSpeech s) e
        in if \<not> inSpeech s \<and> now then classify (resetVotes (s\<lparr>inSpeech := True\<rparr>)) inp
           else if inSpeech s \<and> \<not> now then (s\<lparr>inSpeech := False\<rparr>, None)
           else if \<not> inSpeech s then (s, None)
           else classify s inp)"

definition livePredictTick :: "loop_state \<Rightarrow> tick_input \<Rightarrow> loop_state \<times> label option" where
  "livePredictTick = tick_with REQUIRE_VAD"

subsection \<open>The handlers that write the loop state\<close>

text \<open>
  \<^verbatim>\<open>startListening\<close> does nothing while the timer is set; otherwise it resets the
  session state and sets the timer. \<^verbatim>\<open>stopListening\<close> does nothing while the timer is
  clear; otherwise it clears the timer and closes the gate.
\<close>

definition startListening :: "loop_state \<Rightarrow> loop_state" where
  "startListening s =
     (if listenTimer s then s
      else s\<lparr>lastPreds := [], inSpeech := False, lastStable := None, utteranceFired := False,
             listenTimer := True\<rparr>)"

definition stopListening :: "loop_state \<Rightarrow> loop_state" where
  "stopListening s =
     (if \<not> listenTimer s then s else s\<lparr>listenTimer := False, inSpeech := False\<rparr>)"

text \<open>\<^verbatim>\<open>ensureWorker\<close> creates the worker when there is none.\<close>

definition ensureWorker :: "loop_state \<Rightarrow> loop_state" where
  "ensureWorker s = s\<lparr>worker := True\<rparr>"

text \<open>
  \<^verbatim>\<open>resetModel\<close>: after \<^verbatim>\<open>ensureWorker\<close>, the worker's reset and the deletion of
  the saved model are awaited; when all of them resolve (\<open>completed\<close>), the handler clears
  \<^verbatim>\<open>lastStable\<close> and \<^verbatim>\<open>utteranceFired\<close>; when one rejects, the catch clause only
  logs. The timer and \<^verbatim>\<open>inSpeech\<close> are not touched.
\<close>

definition resetModel :: "bool \<Rightarrow> loop_state \<Rightarrow> loop_state" where
  "resetModel completed s =
     (let s1 = ensureWorker s
      in if completed then s1\<lparr>lastStable := None, utteranceFired := False\<rparr> else s1)"

text \<open>
  The click handler of the listen button: it stops a running loop, and otherwise starts the
  loop once \<^verbatim>\<open>ensureWorker\<close> has resolved (\<open>resolved\<close>).
\<close>

definition listenClick :: "bool \<Rightarrow> loop_state \<Rightarrow> loop_state" where
  "listenClick resolved s =
     (if listenTimer s then stopListening s
      else (let s1 = ensureWorker s in if resolved then startListening s1 else s1))"

text \<open>
  What happens to the loop state in a session: a tick of the timer, a click on the reset
  button, a click on the listen button, or a train or load, which touch the loop state
  through \<^verbatim>\<open>ensureWorker\<close> only. The timer ticks only while it is set.
\<close>

datatype loop_event =
    Tick tick_input
  | ResetModel bool
  | ListenClick bool
  | TrainOrLoad

fun step :: "bool \<Rightarrow> loop_state \<Rightarrow> loop_event \<Rightarrow> loop_state \<times> label option" where
  "step rv s (Tick inp) = (if listenTimer s then tick_with rv s inp else (s, None))"
| "step rv s (ResetModel completed) = (resetModel completed s, None)"
| "step rv s (ListenClick resolved) = (listenClick resolved s, None)"
| "step rv s TrainOrLoad = (ensureWorker s, None)"

text \<open>
  A session: for every step, whether it was a Silence-to-Speech transition (the start of a
  new speech segment) and the event it dispatched.
\<close>

fun session :: "bool \<Rightarrow> loop_state \<Rightarrow> loop_event list \<Rightarrow> (bool \<times> label option) list" where
  "session rv s [] = []"
| "session rv s (ev # evs) =
     (let r = step rv s ev
      in (\<not> inSpeech s \<and> inSpeech (fst r), snd r) # session rv (fst r) evs)"

text \<open>Example inputs: a fresh session, a loud tick and a silent tick.\<close>

definition fresh_session :: loop_state where
  "fresh_session =
     \<lparr>worker = True, lastPreds = [], inSpeech = False, lastStable = None, utteranceFired = False,
      listenTimer = True\<rparr>"

definition loud_tick :: tick_input where
  "loud_tick = \<lparr>slice = [1], feats = [1], reply = Resolved (Some [Num (9 / 10), Num (1 / 10)])\<rparr>"

definition silent_tick :: tick_input where
  "silent_tick = \<lparr>slice = [], feats = [1], reply = Resolved (Some [Num (9 / 10), Num (1 / 10)])\<rparr>"

definition murmur_tick :: tick_input where
  "murmur_tick =
     \<lparr>slice = [4 / 1000], feats = [1], reply = Resolved (Some [Num (9 / 10), Num (1 / 10)])\<rparr>"

section \<open>The classifier boundary (worker)\<close>

subsection \<open>z-score scaler\<close>

record scaler =
  mu :: "real list"
  sigma :: "real list"

text \<open>\<^verbatim>\<open>a || b\<close> on numbers: \<^verbatim>\<open>b\<close> when \<^verbatim>\<open>a\<close> is zero.\<close>

definition or_else :: "real \<Rightarrow> real \<Rightarrow> real" where
  "or_else a b = (if a = 0 then b else a)"

definition EPS :: real where "EPS = 1 / 1000000"

text \<open>
  \<^verbatim>\<open>fitScaler\<close>. The accumulation loops run over the rows in order, so each column is
  a left fold over the rows. \<^verbatim>\<open>X[0].length\<close> throws a TypeError on an empty
  \<^verbatim>\<open>X\<close>. Rows are read at the columns of the first row; the statements below
  are about training sets whose rows all have that length. The arithmetic is over the reals:
  on a column whose deviations are exactly zero the model takes the epsilon, where the
  rounded mean of the source can leave a tiny non-zero deviation, which is then kept. The
  statements below are those that do not depend on this: the sign of an entry, the single
  row (whose mean is the entry itself) and inputs on which the arithmetic is exact.
\<close>

definition col_sum :: "real list list \<Rightarrow> nat \<Rightarrow> real" where
  "col_sum X j = foldl (\<lambda>a row. a + row ! j) 0 X"

definition col_sq :: "real list list \<Rightarrow> real \<Rightarrow> nat \<Rightarrow> real" where
  "col_sq X m j = foldl (\<lambda>a row. a + (row ! j - m) * (row ! j - m)) 0 X"

definition fitScaler :: "real list list \<Rightarrow> string + scaler" where
  "fitScaler X =
     (case X of
        [] \<Rightarrow> Inl ''TypeError: Cannot read properties of undefined (reading length)''
      | row0 # _ \<Rightarrow>
          let n = length X; d = length row0;
              mu = map (\<lambda>j. col_sum X j / real n) [0..<d];
              sd = map (\<lambda>j. col_sq X (mu ! j) j) [0..<d];
              sd' = map (\<lambda>v. or_else (sqrt (v / max 1 (real n - 1))) EPS) sd
          in Inr \<lparr>mu = mu, sigma = sd'\<rparr>)"

text \<open>
  \<^verbatim>\<open>transformOne\<close>: a missing \<^verbatim>\<open>sigma[j]\<close> is falsy and so replaced by the
  epsilon as a zero is.
\<close>

definition sigma_at :: "scaler \<Rightarrow> nat \<Rightarrow> real" where
  "sigma_at sc j = (if j < length (sigma sc) then or_else (sigma sc ! j) EPS else EPS)"

definition transformOne :: "real list \<Rightarrow> scaler \<Rightarrow> real list" where
  "transformOne v sc = map (\<lambda>j. (v ! j - mu sc ! j) / sigma_at sc j) [0..<length v]"

definition transformX :: "real list list \<Rightarrow> scaler \<Rightarrow> real list list" where
  "transformX X sc = map (\<lambda>r. transformOne r sc) X"

subsection \<open>Labels\<close>

text \<open>Labels arrive as class indices (\<^verbatim>\<open>number[]\<close>) or as rows (\<^verbatim>\<open>number[][]\<close>).\<close>

datatype labels = Indices "int list" | Rows "real list list"

text \<open>
  \<^verbatim>\<open>oneHotify\<close>. The row is \<^verbatim>\<open>new Array(k).fill(0)\<close> and the assignment goes to
  index \<^verbatim>\<open>Math.max(0, Math.min(k - 1, lab))\<close>; for \<open>k = 0\<close> that index is 0 and
  the assignment extends the empty row. An empty label array fails the
  \<^verbatim>\<open>typeof y[0] === 'number'\<close> test and is returned as it is.
\<close>

definition clamp_index :: "nat \<Rightarrow> int \<Rightarrow> nat" where
  "clamp_index k lab = nat (max 0 (min (int k - 1) lab))"

definition oneHotRow :: "nat \<Rightarrow> int \<Rightarrow> real list" where
  "oneHotRow k lab =
     (let row = replicate k 0; i = clamp_index k lab
      in if i < length row then row[i := 1] else row @ [1])"

fun oneHotify :: "labels \<Rightarrow> nat \<Rightarrow> real list list" where
  "oneHotify (Indices ys) k = (if ys \<noteq> [] then map (oneHotRow k) ys else [])"
| "oneHotify (Rows rows) k = rows"

text \<open>The number of 1-valued entries of a row.\<close>

definition ones :: "real list \<Rightarrow> nat" where
  "ones row = length (filter (\<lambda>v. v = 1) row)"

subsection \<open>The model library\<close>

text \<open>
  The classes \<^verbatim>\<open>KernelELM\<close> and \<^verbatim>\<open>ELM\<close> come from the package
  \<^verbatim>\<open>@astermind/astermind-elm\<close> and are a parameter of the model: \<open>'m\<close> is the state
  of a model object, \<open>'o\<close> the caller's model options, \<open>'j\<close> a serialised model. A thrown
  exception is its message. A method that may be absent from the object is an option, as
  the worker tests \<^verbatim>\<open>typeof m.f === 'function'\<close>; a method that updates the object
  returns the object after the call and the exception it raised, if any. The constructors
  take the configuration that the worker builds with \<^verbatim>\<open>deepMerge\<close> from the defaults
  for the output dimension and the caller's options; the fields below take these two.
\<close>

record ('m, 'o, 'j) elm_lib =
  hasKernelELM :: bool
  newKernelELM :: "nat \<Rightarrow> 'o option \<Rightarrow> string + 'm"
  newELM :: "nat \<Rightarrow> 'o option \<Rightarrow> string + 'm"
  m_fit :: "'m \<Rightarrow> real list list \<Rightarrow> real list list \<Rightarrow> 'm \<times> string option"
  m_trainFromData ::
    "'m \<Rightarrow> (real list list \<Rightarrow> real list list \<Rightarrow> 'm \<times> string option) option"
  m_train :: "'m \<Rightarrow> (real list list \<Rightarrow> real list list \<Rightarrow> 'm \<times> string option) option"
  m_predictProbaFromVectors :: "'m \<Rightarrow> (real list option list \<Rightarrow> string + real list list) option"
  m_predictLogitsFromVectors :: "'m \<Rightarrow> (real list option list \<Rightarrow> string + real list list) option"
  m_predict :: "'m \<Rightarrow> (real list option list \<Rightarrow> string + real list list) option"
  m_toJSON :: "'m \<Rightarrow> (string + 'j) option"
  m_toJSONString :: "'m \<Rightarrow> (string + 'j) option"
  m_ownFields :: "'m \<Rightarrow> 'j"
  newKernelELM_json :: "'j \<Rightarrow> string + 'm"
  newELM_json :: "'j \<Rightarrow> string + 'm"
  m_loadModelFromJSON :: "'m \<Rightarrow> ('j \<Rightarrow> 'm \<times> string option) option"
  m_fromJSON :: "'m \<Rightarrow> ('j \<Rightarrow> 'm \<times> string option) option"

text \<open>\<^verbatim>\<open>Array.isArray(P) && Array.isArray(P[0]) ? P[0] : []\<close>.\<close>

definition first_row :: "real list list \<Rightarrow> real list" where
  "first_row P = (case P of [] \<Rightarrow> [] | r # _ \<Rightarrow> r)"

text \<open>The softmax of the logit path; on no logits every step maps the empty array.\<close>

definition softmax :: "real list \<Rightarrow> real list" where
  "softmax logits =
     (case logits of
        [] \<Rightarrow> []
      | l # ls \<Rightarrow>
          let mx = foldl max l ls;
              exps = map (\<lambda>v. exp (v - mx)) logits;
              s = or_else (foldl (+) 0 exps) 1
          in map (\<lambda>v. v / s) exps)"

definition probs1D :: "('m, 'o, 'j) elm_lib \<Rightarrow> 'm \<Rightarrow> real list option \<Rightarrow> string + real list" where
  "probs1D lib m v =
     (case m_predictProbaFromVectors lib m of
        Some f \<Rightarrow> (case f [v] of Inl e \<Rightarrow> Inl e | Inr P \<Rightarrow> Inr (first_row P))
      | None \<Rightarrow>
          (case m_predictLogitsFromVectors lib m of
             Some f \<Rightarrow> (case f [v] of Inl e \<Rightarrow> Inl e | Inr L \<Rightarrow> Inr (softmax (first_row L)))
           | None \<Rightarrow>
               (case m_predict lib m of
                  Some f \<Rightarrow> (case f [v] of Inl e \<Rightarrow> Inl e | Inr out \<Rightarrow> Inr (first_row out))
                | None \<Rightarrow> Inl ''Model has no predict method'')))"

definition modelToJSON :: "('m, 'o, 'j) elm_lib \<Rightarrow> 'm option \<Rightarrow> string + 'j" where
  "modelToJSON lib mo =
     (case mo of
        None \<Rightarrow> Inl ''No model to export''
      | Some m \<Rightarrow>
          (case m_toJSON lib m of
             Some r \<Rightarrow> r
           | None \<Rightarrow>
               (case m_toJSONString lib m of
                  Some r \<Rightarrow> r
                | None \<Rightarrow> Inr (m_ownFields lib m))))"

text \<open>A method call on a fresh object: the object is returned unless the call throws.\<close>

definition call_load :: "'m \<times> string option \<Rightarrow> string + 'm" where
  "call_load r = (case snd r of None \<Rightarrow> Inr (fst r) | Some e \<Rightarrow> Inl e)"

definition loadModelFromJSON :: "('m, 'o, 'j) elm_lib \<Rightarrow> 'j \<Rightarrow> string + 'm" where
  "loadModelFromJSON lib json =
     (case (if hasKernelELM lib then newKernelELM_json lib json else newELM_json lib json) of
        Inl e \<Rightarrow> Inl e
      | Inr m \<Rightarrow>
          (case m_loadModelFromJSON lib m of
             Some f \<Rightarrow> call_load (f json)
           | None \<Rightarrow>
               (case m_fromJSON lib m of
                  Some f \<Rightarrow> call_load (f json)
                | None \<Rightarrow> Inl ''Model lacks loadModelFromJSON/fromJSON'')))"

subsection \<open>Messages and the handler\<close>

text \<open>The fields that the handler reads from a payload; an absent field is \<open>None\<close>.\<close>

record ('o, 'j) payload =
  p_X :: "real list list option"
  p_y :: "labels option"
  p_modelOptions :: "'o option"
  p_x :: "real list option"
  p_modelJSON :: "'j option"
  p_scaler :: "scaler option"

definition no_payload :: "('o, 'j) payload" where
  "no_payload = \<lparr>p_X = None, p_y = None, p_modelOptions = None, p_x = None,
     p_modelJSON = None, p_scaler = None\<rparr>"

record ('o, 'j) request =
  req_id :: string
  action :: string
  payload :: "('o, 'j) payload option"

datatype 'j result =
    Ready | Trained | Scores "real list" | Exported 'j "scaler option" | Imported | ResetDone

record 'j response =
  resp_id :: string
  ok :: bool
  result :: "'j result option"
  error :: "string option"

text \<open>The module variables of the worker.\<close>

record 'm boundary =
  model :: "'m option"
  scaler :: "scaler option"

definition post_ok :: "string \<Rightarrow> 'j result \<Rightarrow> 'j response" where
  "post_ok i r = \<lparr>resp_id = i, ok = True, result = Some r, error = None\<rparr>"

text \<open>The catch clause: \<^verbatim>\<open>err?.message || String(err)\<close> for an \<^verbatim>\<open>Error\<close>.\<close>

definition post_caught :: "string \<Rightarrow> string \<Rightarrow> 'j response" where
  "post_caught i msg =
     \<lparr>resp_id = i, ok = False, result = None,
      error = Some (if msg = [] then ''Error'' else msg)\<rparr>"

definition the_payload :: "('o, 'j) request \<Rightarrow> ('o, 'j) payload" where
  "the_payload rq = (case payload rq of None \<Rightarrow> no_payload | Some p \<Rightarrow> p)"

definition outDim_of :: "labels \<Rightarrow> nat" where
  "outDim_of y = (case y of Rows (r # _) \<Rightarrow> length r | _ \<Rightarrow> 1)"

definition labels_empty :: "labels \<Rightarrow> bool" where
  "labels_empty y = (case y of Indices ys \<Rightarrow> ys = [] | Rows rows \<Rightarrow> rows = [])"

text \<open>
  Running a training method on the object that \<^verbatim>\<open>model\<close> already refers to: the
  variable sees the object as the call left it, also when the call throws.
\<close>

definition run_training ::
  "string \<Rightarrow> 'm boundary \<Rightarrow> 'm \<times> string option \<Rightarrow> 'm boundary \<times> 'j response" where
  "run_training i st r =
     (st\<lparr>model := Some (fst r)\<rparr>,
      case snd r of None \<Rightarrow> post_ok i Trained | Some e \<Rightarrow> post_caught i e)"

definition train_branch ::
  "('m, 'o, 'j) elm_lib \<Rightarrow> 'm boundary \<Rightarrow> ('o, 'j) request \<Rightarrow> 'm boundary \<times> 'j response" where
  "train_branch lib st rq =
     (let p = the_payload rq; i = req_id rq in
      case (p_X p, p_y p) of
        (Some X, Some y) \<Rightarrow>
          if X = [] \<or> labels_empty y then (st, post_caught i ''train: missing X or y'')
          else
            let outDim = outDim_of y in
            (case fitScaler X of
               Inl e \<Rightarrow> (st, post_caught i e)
             | Inr sc \<Rightarrow>
                 let st1 = st\<lparr>scaler := Some sc\<rparr>;
                     Xs = transformX X sc;
                     Y = oneHotify y outDim
                 in if hasKernelELM lib
                    then (case newKernelELM lib outDim (p_modelOptions p) of
                            Inl e \<Rightarrow> (st1, post_caught i e)
                          | Inr m \<Rightarrow> run_training i st1 (m_fit lib m Xs Y))
                    else (case newELM lib outDim (p_modelOptions p) of
                            Inl e \<Rightarrow> (st1, post_caught i e)
                          | Inr m \<Rightarrow>
                              (case m_trainFromData lib m of
                                 Some f \<Rightarrow> run_training i st1 (f Xs Y)
                               | None \<Rightarrow>
                                   (case m_train lib m of
                                      Some f \<Rightarrow> run_training i st1 (f Xs Y)
                                    | None \<Rightarrow>
                                        (st1\<lparr>model := Some m\<rparr>,
                                         post_caught i ''ELM: no train/trainFromData method'')))))
      | _ \<Rightarrow> (st, post_caught i ''train: missing X or y''))"

definition predict_branch ::
  "('m, 'o, 'j) elm_lib \<Rightarrow> 'm boundary \<Rightarrow> ('o, 'j) request \<Rightarrow> 'm boundary \<times> 'j response" where
  "predict_branch lib st rq =
     (let i = req_id rq in
      case model st of
        None \<Rightarrow> (st, post_caught i ''Model not trained yet'')
      | Some m \<Rightarrow>
          let v = p_x (the_payload rq);
              xs = (case scaler st of
                      None \<Rightarrow> Inr v
                    | Some sc \<Rightarrow>
                        (case v of
                           None \<Rightarrow>
                             Inl ''TypeError: Cannot read properties of undefined (reading length)''
                         | Some w \<Rightarrow> Inr (Some (transformOne w sc))))
          in (case xs of
                Inl e \<Rightarrow> (st, post_caught i e)
              | Inr xs' \<Rightarrow>
                  (case probs1D lib m xs' of
                     Inl e \<Rightarrow> (st, post_caught i e)
                   | Inr yhat \<Rightarrow> (st, post_ok i (Scores yhat)))))"

definition export_branch ::
  "('m, 'o, 'j) elm_lib \<Rightarrow> 'm boundary \<Rightarrow> ('o, 'j) request \<Rightarrow> 'm boundary \<times> 'j response" where
  "export_branch lib st rq =
     (let i = req_id rq in
      case model st of
        None \<Rightarrow> (st, post_caught i ''No model to export'')
      | Some m \<Rightarrow>
          (case modelToJSON lib (Some m) of
             Inl e \<Rightarrow> (st, post_caught i e)
           | Inr j \<Rightarrow> (st, post_ok i (Exported j (scaler st)))))"

definition import_branch ::
  "('m, 'o, 'j) elm_lib \<Rightarrow> 'm boundary \<Rightarrow> ('o, 'j) request \<Rightarrow> 'm boundary \<times> 'j response" where
  "import_branch lib st rq =
     (let p = the_payload rq; i = req_id rq in
      case p_modelJSON p of
        None \<Rightarrow> (st, post_caught i ''Missing modelJSON'')
      | Some j \<Rightarrow>
          (case loadModelFromJSON lib j of
             Inl e \<Rightarrow> (st, post_caught i e)
           | Inr m \<Rightarrow> (\<lparr>model = Some m, scaler = p_scaler p\<rparr>, post_ok i Imported)))"

text \<open>\<^verbatim>\<open>self.onmessage\<close>: the state after the message and the response posted.\<close>

definition onmessage ::
  "('m, 'o, 'j) elm_lib \<Rightarrow> 'm boundary \<Rightarrow> ('o, 'j) request \<Rightarrow> 'm boundary \<times> 'j response" where
  "onmessage lib st rq =
     (if action rq = ''init'' then (st, post_ok (req_id rq) Ready)
      else if action rq = ''train'' then train_branch lib st rq
      else if action rq = ''predict'' then predict_branch lib st rq
      else if action rq = ''export'' then export_branch lib st rq
      else if action rq = ''import'' then import_branch lib st rq
      else if action rq = ''reset'' then (\<lparr>model = None, scaler = None\<rparr>, post_ok (req_id rq) ResetDone)
      else (st, \<lparr>resp_id = req_id rq, ok = False, result = None,
                  error = Some (''Unknown action: '' @ action rq)\<rparr>))"

text \<open>The request carries no usable training data: \<^verbatim>\<open>!X?.length || !y?.length\<close>.\<close>

definition train_inputs_missing :: "('o, 'j) request \<Rightarrow> bool" where
  "train_inputs_missing rq =
     (case (p_X (the_payload rq), p_y (the_payload rq)) of
        (Some X, Some y) \<Rightarrow> X = [] \<or> labels_empty y
      | _ \<Rightarrow> True)"

text \<open>
  What the round trip needs from the library, stated on the library's own constructors and
  methods. Two model objects score alike when they offer the same prediction methods with
  the same results. A restore call has restored \<open>m\<close> when it did not throw and left an
  object that scores like \<open>m\<close>. A constructor restores \<open>m\<close> from \<open>j\<close> when it builds
  an object from \<open>j\<close> that offers a restore method, and every restore method it offers
  restores \<open>m\<close>. The library keeps the contract when every model object offers
  \<^verbatim>\<open>toJSON\<close> or \<^verbatim>\<open>toJSONString\<close>, and every serialisation that these give is one
  from which the class present in the environment (\<^verbatim>\<open>KernelELM\<close> when it is defined,
  \<^verbatim>\<open>ELM\<close> otherwise) restores the object.
\<close>

definition same_scores :: "('m, 'o, 'j) elm_lib \<Rightarrow> 'm \<Rightarrow> 'm \<Rightarrow> bool" where
  "same_scores lib m' m =
     (m_predictProbaFromVectors lib m' = m_predictProbaFromVectors lib m
      \<and> m_predictLogitsFromVectors lib m' = m_predictLogitsFromVectors lib m
      \<and> m_predict lib m' = m_predict lib m)"

definition restored :: "('m, 'o, 'j) elm_lib \<Rightarrow> 'm \<times> string option \<Rightarrow> 'm \<Rightarrow> bool" where
  "restored lib r m = (snd r = None \<and> same_scores lib (fst r) m)"

definition restores_with ::
  "('m, 'o, 'j) elm_lib \<Rightarrow> ('j \<Rightarrow> string + 'm) \<Rightarrow> 'j \<Rightarrow> 'm \<Rightarrow> bool" where
  "restores_with lib ctor j m =
     (\<exists>m0. ctor j = Inr m0
        \<and> (m_loadModelFromJSON lib m0 \<noteq> None \<or> m_fromJSON lib m0 \<noteq> None)
        \<and> (\<forall>f. m_loadModelFromJSON lib m0 = Some f \<longrightarrow> restored lib (f j) m)
        \<and> (\<forall>f. m_fromJSON lib m0 = Some f \<longrightarrow> restored lib (f j) m))"

definition serialisation_restores ::
  "('m, 'o, 'j) elm_lib \<Rightarrow> string + 'j \<Rightarrow> 'm \<Rightarrow> bool" where
  "serialisation_restores lib r m =
     (\<exists>j. r = Inr j
        \<and> (hasKernelELM lib \<longrightarrow> restores_with lib (newKernelELM_json lib) j m)
        \<and> (\<not> hasKernelELM lib \<longrightarrow> restores_with lib (newELM_json lib) j m))"

definition lib_contract :: "('m, 'o, 'j) elm_lib \<Rightarrow> bool" where
  "lib_contract lib =
     (\<forall>m. (m_toJSON lib m \<noteq> None \<or> m_toJSONString lib m \<noteq> None)
        \<and> (\<forall>r. m_toJSON lib m = Some r \<longrightarrow> serialisation_restores lib r m)
        \<and> (\<forall>r. m_toJSONString lib m = Some r \<longrightarrow> serialisation_restores lib r m))"

subsection \<open>A small library instance\<close>

text \<open>
  A classifier that memorises its training pairs and answers with the label row stored for
  the (standardised) input; its \<^verbatim>\<open>fit\<close> throws when features and labels differ in
  number. It serves as the concrete library of the examples below.
\<close>

type_synonym memo = "real list list \<times> real list list"

definition memo_predict :: "memo \<Rightarrow> real list option list \<Rightarrow> string + real list list" where
  "memo_predict m V =
     Inr (map (\<lambda>v. case v of None \<Rightarrow> []
                  | Some w \<Rightarrow> (case map_of (zip (fst m) (snd m)) w of None \<Rightarrow> [] | Some row \<Rightarrow> row)) V)"

definition memo_fit :: "memo \<Rightarrow> real list list \<Rightarrow> real list list \<Rightarrow> memo \<times> string option" where
  "memo_fit m Xs Y =
     (if length Xs = length Y then ((Xs, Y), None)
      else (m, Some ''fit: X and Y differ in length''))"

definition memo_lib :: "(memo, unit, memo) elm_lib" where
  "memo_lib =
     \<lparr>hasKernelELM = True,
      newKernelELM = (\<lambda>d opts. Inr ([], [])),
      newELM = (\<lambda>d opts. Inr ([], [])),
      m_fit = memo_fit,
      m_trainFromData = (\<lambda>m. None),
      m_train = (\<lambda>m. None),
      m_predictProbaFromVectors = (\<lambda>m. Some (memo_predict m)),
      m_predictLogitsFromVectors = (\<lambda>m. None),
      m_predict = (\<lambda>m. None),
      m_toJSON = (\<lambda>m. Some (Inr m)),
      m_toJSONString = (\<lambda>m. None),
      m_ownFields = (\<lambda>m. m),
      newKernelELM_json = (\<lambda>j. Inr ([], [])),
      newELM_json = (\<lambda>j. Inr ([], [])),
      m_loadModelFromJSON = (\<lambda>m. None),
      m_fromJSON = (\<lambda>m. Some (\<lambda>j. (j, None)))\<rparr>"

definition empty_boundary :: "memo boundary" where
  "empty_boundary = \<lparr>model = None, scaler = None\<rparr>"

definition good_train :: "(unit, memo) request" where
  "good_train =
     \<lparr>req_id = ''t1'', action = ''train'',
      payload = Some (no_payload\<lparr>p_X := Some [[0], [2], [4]],
                                 p_y := Some (Rows [[1, 0], [0, 1], [0, 1]])\<rparr>)\<rparr>"

definition bad_train :: "(unit, memo) request" where
  "bad_train =
     \<lparr>req_id = ''t2'', action = ''train'',
      payload = Some (no_payload\<lparr>p_X := Some [[0], [1], [2]], p_y := Some (Rows [[1, 0]])\<rparr>)\<rparr>"

definition predict_req :: "(unit, memo) request" where
  "predict_req =
     \<lparr>req_id = ''p1'', action = ''predict'', payload = Some (no_payload\<lparr>p_x := Some [0]\<rparr>)\<rparr>"

definition trained_boundary :: "memo boundary" where
  "trained_boundary = \<lparr>model = Some ([[- 1], [0], [1]], [[1, 0], [0, 1], [0, 1]]),
                        scaler = Some \<lparr>mu = [2], sigma = [2]\<rparr>\<rparr>"

definition export_req :: "(unit, memo) request" where
  "export_req = \<lparr>req_id = ''e1'', action = ''export'', payload = None\<rparr>"

definition reset_req :: "(unit, memo) request" where
  "reset_req = \<lparr>req_id = ''r1'', action = ''reset'', payload = None\<rparr>"

definition import_req :: "(unit, memo) request" where
  "import_req =
     \<lparr>req_id = ''i1'', action = ''import'',
      payload = Some (no_payload\<lparr>p_modelJSON := Some ([[- 1], [0], [1]], [[1, 0], [0, 1], [0, 1]]),
                                 p_scaler := Some \<lparr>mu = [2], sigma = [2]\<rparr>\<rparr>)\<rparr>"

definition frobnicate_req :: "(unit, memo) request" where
  "frobnicate_req = \<lparr>req_id = ''f1'', action = ''frobnicate'', payload = None\<rparr>"

definition empty_train :: "(unit, memo) request" where
  "empty_train =
     \<lparr>req_id = ''t3'', action = ''train'',
      payload = Some (no_payload\<lparr>p_X := Some [], p_y := Some (Rows [[1, 0]])\<rparr>)\<rparr>"

text \<open>
  The same classifier in an environment without \<^verbatim>\<open>KernelELM\<close>, with the other method
  names: \<^verbatim>\<open>trainFromData\<close>, \<^verbatim>\<open>predict\<close>, \<^verbatim>\<open>toJSONString\<close> and
  \<^verbatim>\<open>loadModelFromJSON\<close>.
\<close>

definition memo_elm_lib :: "(memo, unit, memo) elm_lib" where
  "memo_elm_lib =
     memo_lib\<lparr>hasKernelELM := False,
              m_trainFromData := (\<lambda>m. Some (memo_fit m)),
              m_predictProbaFromVectors := (\<lambda>m. None),
              m_predict := (\<lambda>m. Some (memo_predict m)),
              m_toJSON := (\<lambda>m. None),
              m_toJSONString := (\<lambda>m. Some (Inr m)),
              m_loadModelFromJSON := (\<lambda>m. Some (\<lambda>j. (j, None))),
              m_fromJSON := (\<lambda>m. None)\<rparr>"

section \<open>Feature extraction (mfcc.ts)\<close>

text \<open>
  \<^verbatim>\<open>n & (n - 1)\<close> works on the 32-bit two's-complement values of its operands.
\<close>

definition isPowerOfTwo :: "int \<Rightarrow> bool" where
  "isPowerOfTwo n = (n > 0 \<and> (signed_take_bit 31 n AND signed_take_bit 31 (n - 1)) = 0)"

text \<open>
  \<^verbatim>\<open>1 << k\<close>: the shift count is taken modulo 32 and the result is a signed 32-bit
  integer, so a count of 31 gives \<open>- 2^31\<close>.
\<close>

definition shl1 :: "int \<Rightarrow> int" where
  "shl1 k = (let c = nat (k mod 32) in if c = 31 then - (2 ^ 31) else 2 ^ c)"

definition frame_target :: "real \<Rightarrow> int" where
  "frame_target sampleRate = max 1 \<lfloor>25 / 1000 * sampleRate\<rfloor>"

definition pickFrameSize :: "real \<Rightarrow> int" where
  "pickFrameSize sampleRate =
     (let target = frame_target sampleRate;
          lowerPow = shl1 \<lfloor>log 2 (real_of_int target)\<rfloor>;
          upperPow = shl1 \<lceil>log 2 (real_of_int target)\<rceil>;
          chosen = (if \<bar>upperPow - target\<bar> < \<bar>lowerPow - target\<bar> then upperPow else lowerPow);
          chosen1 = (if chosen < 256 then 256 else chosen)
      in if chosen1 > 4096 then 4096 else chosen1)"

text \<open>The options record; an absent field takes its default in the destructuring.\<close>

record MFCCOptions =
  trimThreshold :: "real option"
  allowUntrimFallback :: "bool option"
  padToFrame :: "bool option"

definition MFCC_OPTS :: MFCCOptions where
  "MFCC_OPTS = \<lparr>trimThreshold = Some (3 / 1000), allowUntrimFallback = Some True,
                 padToFrame = Some True\<rparr>"

text \<open>\<^verbatim>\<open>subarray(begin, end)\<close>: a negative index counts from the end, and both are clamped.\<close>

definition rel_index :: "nat \<Rightarrow> int \<Rightarrow> nat" where
  "rel_index len i = (if i < 0 then nat (max 0 (int len + i)) else min (nat i) len)"

definition subarray :: "real list \<Rightarrow> int \<Rightarrow> int \<Rightarrow> real list" where
  "subarray x b e =
     (let bi = rel_index (length x) b; ei = rel_index (length x) e
      in take (ei - bi) (drop bi x))"

definition normalize :: "real list \<Rightarrow> real list" where
  "normalize x =
     (let mx = foldl (\<lambda>m v. max m \<bar>v\<bar>) (1 / 1000000000) x
      in if mx < 1 / 1000000 then x else map (\<lambda>v. v / mx) x)"

function trim_start :: "real list \<Rightarrow> real \<Rightarrow> nat \<Rightarrow> nat" where
  "trim_start x thr s = (if s < length x \<and> \<bar>x ! s\<bar> < thr then trim_start x thr (Suc s) else s)"
  by pat_completeness auto
termination
  by (relation "measure (\<lambda>(x, thr, s). length x - s)") auto

function trim_end :: "real list \<Rightarrow> real \<Rightarrow> nat \<Rightarrow> int \<Rightarrow> int" where
  "trim_end x thr s e = (if e > int s \<and> \<bar>x ! nat e\<bar> < thr then trim_end x thr s (e - 1) else e)"
  by pat_completeness auto
termination
  by (relation "measure (\<lambda>(x, thr, s, e). nat e)") auto

declare trim_start.simps [simp del] trim_end.simps [simp del]

definition trimSilence :: "real list \<Rightarrow> real \<Rightarrow> real list" where
  "trimSilence x thr =
     (let s = trim_start x thr 0;
          e = trim_end x thr s (int (length x) - 1)
      in subarray x (int s) (e + 1))"

text \<open>
  \<^verbatim>\<open>Meyda.extract('mfcc', frame, {sampleRate, bufferSize, melBands: 26,
  numberOfMFCCCoefficients: 13, windowingFunction: 'hamming'})\<close> is a parameter of the
  model, a function of the sample rate, the buffer size and the frame: \<open>None\<close> when the call
  throws or returns something that is not an array, the array otherwise.
\<close>

type_synonym meyda = "real \<Rightarrow> int \<Rightarrow> real list \<Rightarrow> real list option"

text \<open>One frame: the coefficients are kept when they are a non-empty array.\<close>

definition frame_mfcc :: "meyda \<Rightarrow> real \<Rightarrow> int \<Rightarrow> real list \<Rightarrow> real list list" where
  "frame_mfcc my sampleRate frameSize frame =
     (case my sampleRate frameSize frame of
        None \<Rightarrow> []
      | Some mf \<Rightarrow> if mf \<noteq> [] then [mf] else [])"

text \<open>
  The sliding loop \<^verbatim>\<open>for (i = 0; i + frameSize <= sig.length; i += hop)\<close>. The hop is
  half of a frame size of at least 256, hence positive; the model stops on a hop of 0, which
  the source never has.
\<close>

function slide :: "meyda \<Rightarrow> real \<Rightarrow> real list \<Rightarrow> nat \<Rightarrow> nat \<Rightarrow> nat \<Rightarrow> real list list" where
  "slide my sampleRate sig frameSize hop i =
     (if 0 < hop \<and> i + frameSize \<le> length sig
      then frame_mfcc my sampleRate (int frameSize) (subarray sig (int i) (int (i + frameSize)))
           @ slide my sampleRate sig frameSize hop (i + hop)
      else [])"
  by pat_completeness auto
termination
  by (relation "measure (\<lambda>(my, sampleRate, sig, frameSize, hop, i). Suc (length sig) - i)") auto

declare slide.simps [simp del]

text \<open>Steps 1 to 4: normalise, trim, fall back to the untrimmed signal, pad at the head.\<close>

definition prepare :: "real list \<Rightarrow> real \<Rightarrow> MFCCOptions \<Rightarrow> real list" where
  "prepare float32 sampleRate opts =
     (let thr = (case trimThreshold opts of None \<Rightarrow> 3 / 1000 | Some t \<Rightarrow> t);
          fallback = (case allowUntrimFallback opts of None \<Rightarrow> True | Some b \<Rightarrow> b);
          pad = (case padToFrame opts of None \<Rightarrow> True | Some b \<Rightarrow> b);
          norm = normalize float32;
          sig0 = trimSilence norm thr;
          frameSize = pickFrameSize sampleRate;
          sig1 = (if int (length sig0) < frameSize \<and> fallback then norm else sig0)
      in if int (length sig1) < frameSize \<and> pad
         then (let copyLen = min (int (length sig1)) frameSize
               in replicate (nat (frameSize - copyLen)) 0
                  @ subarray sig1 (int (length sig1) - copyLen) (int (length sig1)))
         else sig1)"

text \<open>Steps 5 and 6: the coefficient arrays of the frames, or of the tail window alone.\<close>

definition collect_mfccs :: "meyda \<Rightarrow> real \<Rightarrow> real list \<Rightarrow> real list list" where
  "collect_mfccs my sampleRate sig =
     (let frameSize = pickFrameSize sampleRate;
          hop = frameSize div 2;
          mfccs = slide my sampleRate sig (nat frameSize) (nat hop) 0
      in if mfccs = []
         then frame_mfcc my sampleRate frameSize
                (subarray sig (int (length sig) - frameSize) (int (length sig)))
         else mfccs)"

text \<open>Step 8: per-coefficient mean and standard deviation across the frames.\<close>

definition aggregate :: "real list list \<Rightarrow> real list" where
  "aggregate mfccs =
     (let T = length mfccs; D = length (hd mfccs);
          means = map (\<lambda>d. col_sum mfccs d / real T) [0..<D];
          stds = map (\<lambda>d. sqrt (col_sq mfccs (means ! d) d / max 1 (real T - 1))) [0..<D]
      in means @ stds)"

definition extractFeaturesMonoFloat32 ::
  "meyda \<Rightarrow> real list \<Rightarrow> real \<Rightarrow> MFCCOptions \<Rightarrow> string + real list" where
  "extractFeaturesMonoFloat32 my float32 sampleRate opts =
     (let sig = prepare float32 sampleRate opts;
          frameSize = pickFrameSize sampleRate
      in if int (length sig) < frameSize then Inr (replicate 26 0)
         else if \<not> isPowerOfTwo frameSize
         then Inl ''Internal error: non-power-of-two frame size selected''
         else
           let mfccs = collect_mfccs my sampleRate sig
           in if mfccs = [] \<or> hd mfccs = [] then Inr (replicate 26 0)
              else Inr (aggregate mfccs))"

text \<open>The black box returns 13 coefficients whenever it returns a non-empty array.\<close>

definition meyda_13 :: "meyda \<Rightarrow> bool" where
  "meyda_13 my = (\<forall>sr n frame mf. my sr n frame = Some mf \<and> mf \<noteq> [] \<longrightarrow> length mf = 13)"

text \<open>Two black boxes for the examples: one that answers every frame, one that never does.\<close>

definition flat_meyda :: meyda where
  "flat_meyda sr n frame = Some (replicate 13 (sum_list frame))"

definition deaf_meyda :: meyda where
  "deaf_meyda sr n frame = None"

section \<open>Properties of the realtime loop\<close>

lemma rms_loop_sum: "rms_loop x s = s + (\<Sum>v\<leftarrow>x. v\<^sup>2)"
  by (induction x arbitrary: s) (simp_all add: power2_eq_square)

lemma rms_loop_nonneg: "0 \<le> s \<Longrightarrow> 0 \<le> rms_loop x s"
  by (induction x arbitrary: s) simp_all

lemma rms_single: "rms [x] = \<bar>x\<bar>"
  by (simp add: rms_def rms_divisor_def)

text \<open>
  C10. The RMS energy is defined on every sample window: its divisor is at least 1 (never
  zero), its value is the square root of the sum of the squared samples over
  \<open>max 1 length\<close>, it is non-negative, and the empty window has energy exactly 0.
\<close>

theorem rms_total_nonneg:
  "rms_divisor x \<ge> 1
   \<and> rms x = sqrt ((\<Sum>v\<leftarrow>x. v\<^sup>2) / max 1 (real (length x)))
   \<and> 0 \<le> rms x
   \<and> rms [] = 0"
proof -
  have d: "rms_divisor x \<ge> 1"
    by (simp add: rms_divisor_def)
  have e: "rms x = sqrt ((\<Sum>v\<leftarrow>x. v\<^sup>2) / max 1 (real (length x)))"
    by (simp add: rms_def rms_divisor_def rms_loop_sum)
  have "0 \<le> rms_loop x 0"
    by (rule rms_loop_nonneg) simp
  with d have n: "0 \<le> rms x"
    by (simp add: rms_def)
  have z: "rms [] = 0"
    by (simp add: rms_def)
  from d e n z show ?thesis by blast
qed

subsection \<open>Majority vote\<close>

lemma occ_snoc: "occ (h @ [x]) = (if x \<in> set h then occ h else occ h @ [x])"
  by (simp add: occ_def)

lemma set_occ: "set (occ h) = set h"
  by (simp add: occ_def)

lemma distinct_occ: "distinct (occ h)"
  by (simp add: occ_def)

lemma map_set_present:
  "k \<in> set ks \<Longrightarrow> distinct ks \<Longrightarrow>
   map_set (map (\<lambda>j. (j, f j)) ks) k v = map (\<lambda>j. (j, if j = k then v else f j)) ks"
  by (induction ks) auto

lemma map_set_absent:
  "k \<notin> set ks \<Longrightarrow> map_set (map (\<lambda>j. (j, f j)) ks) k v = map (\<lambda>j. (j, f j)) ks @ [(k, v)]"
  by (induction ks) auto

lemma map_get_or0_tab:
  "map_get_or0 (map (\<lambda>j. (j, f j)) ks) k = (if k \<in> set ks then f k else 0)"
  by (induction ks) (auto simp: map_get_or0_def)

lemma counts_table:
  "foldl count_step [] h = map (\<lambda>k. (k, int (count_list h k))) (occ h)"
proof (induction h rule: rev_induct)
  case Nil
  show ?case by (simp add: occ_def)
next
  case (snoc x h)
  let ?f = "\<lambda>k. int (count_list h k)"
  have step: "foldl count_step [] (h @ [x]) = count_step (map (\<lambda>k. (k, ?f k)) (occ h)) x"
    using snoc by simp
  show ?case
  proof (cases "x \<in> set h")
    case True
    have "count_step (map (\<lambda>k. (k, ?f k)) (occ h)) x
          = map (\<lambda>j. (j, if j = x then ?f x + 1 else ?f j)) (occ h)"
      unfolding count_step_def
      using True by (simp add: map_get_or0_tab set_occ map_set_present distinct_occ)
    also have "\<dots> = map (\<lambda>k. (k, int (count_list (h @ [x]) k))) (occ h)"
      by (rule map_cong) auto
    finally show ?thesis using step True by (simp add: occ_snoc)
  next
    case False
    have a: "count_step (map (\<lambda>k. (k, ?f k)) (occ h)) x
          = map (\<lambda>k. (k, ?f k)) (occ h) @ [(x, 1)]"
      unfolding count_step_def
      using False by (simp add: map_get_or0_tab set_occ map_set_absent)
    have b: "map (\<lambda>k. (k, ?f k)) (occ h) = map (\<lambda>k. (k, int (count_list (h @ [x]) k))) (occ h)"
      using False by (intro map_cong) (auto simp: set_occ)
    have c: "occ (h @ [x]) = occ h @ [x]"
      using False by (simp add: occ_snoc)
    have d: "int (count_list (h @ [x]) x) = 1"
      using False by simp
    have "foldl count_step [] (h @ [x]) = map (\<lambda>k. (k, ?f k)) (occ h) @ [(x, 1)]"
      using step a by (rule trans)
    also have "\<dots> = map (\<lambda>k. (k, int (count_list (h @ [x]) k))) (occ h) @ [(x, 1)]"
      using b by (rule arg_cong)
    also have "\<dots> = map (\<lambda>k. (k, int (count_list (h @ [x]) k))) (occ (h @ [x]))"
      unfolding c using d by simp
    finally show ?thesis .
  qed
qed

lemma best_fold_keep:
  "\<forall>e\<in>set es. snd e \<le> bc \<Longrightarrow> foldl best_step (b, bc) es = (b, bc)"
  by (induction es) auto

lemma best_fold_first_max:
  "\<exists>e\<in>set es. bc < snd e \<Longrightarrow>
   \<exists>pre k c post. es = pre @ (k, c) # post \<and> foldl best_step (b, bc) es = (k, c)
      \<and> bc < c \<and> (\<forall>e\<in>set pre. snd e < c) \<and> (\<forall>e\<in>set post. snd e \<le> c)"
proof (induction es arbitrary: b bc)
  case Nil
  then show ?case by simp
next
  case (Cons e es)
  obtain k' c' where e: "e = (k', c')" by (cases e)
  show ?case
  proof (cases "bc < c'")
    case True
    show ?thesis
    proof (cases "\<exists>e\<in>set es. c' < snd e")
      case True
      from Cons.IH[OF True, of k'] obtain pre k c post where
        p: "es = pre @ (k, c) # post" "foldl best_step (k', c') es = (k, c)" "c' < c"
           "\<forall>e\<in>set pre. snd e < c" "\<forall>e\<in>set post. snd e \<le> c"
        by blast
      have "e # es = (e # pre) @ (k, c) # post" using p(1) by simp
      moreover have "foldl best_step (b, bc) (e # es) = (k, c)" using p(2) e \<open>bc < c'\<close> by simp
      moreover have "bc < c" using p(3) \<open>bc < c'\<close> by simp
      moreover have "\<forall>x\<in>set (e # pre). snd x < c" using p(3,4) e by simp
      ultimately show ?thesis using p(5) by blast
    next
      case False
      then have le: "\<forall>e\<in>set es. snd e \<le> c'" by auto
      have "e # es = [] @ (k', c') # es" using e by simp
      moreover have "foldl best_step (b, bc) (e # es) = (k', c')"
        using e \<open>bc < c'\<close> best_fold_keep[OF le] by simp
      moreover have "\<forall>x\<in>set []. snd x < c'" by simp
      ultimately show ?thesis using le \<open>bc < c'\<close> by blast
    qed
  next
    case False
    with Cons.prems e have ex: "\<exists>e\<in>set es. bc < snd e" by auto
    from Cons.IH[OF ex, of b] obtain pre k c post where
      p: "es = pre @ (k, c) # post" "foldl best_step (b, bc) es = (k, c)" "bc < c"
         "\<forall>e\<in>set pre. snd e < c" "\<forall>e\<in>set post. snd e \<le> c"
      by blast
    have "e # es = (e # pre) @ (k, c) # post" using p(1) by simp
    moreover have "foldl best_step (b, bc) (e # es) = (k, c)" using p(2) e False by simp
    moreover have "\<forall>x\<in>set (e # pre). snd x < c" using p(3,4) e False by simp
    ultimately show ?thesis using p(3,5) by blast
  qed
qed

lemma first_pos_le:
  "j \<notin> set (takeWhile (\<lambda>y. y \<noteq> k) h) \<Longrightarrow> first_pos h k \<le> first_pos h j"
  by (induction h) (auto simp: first_pos_def)

lemma tw_all:
  "k \<notin> set xs \<Longrightarrow>
   takeWhile (\<lambda>y. y \<noteq> k) (xs @ ys) = xs @ takeWhile (\<lambda>y. y \<noteq> k) ys"
  by (induction xs) auto

lemma tw_in:
  "k \<in> set xs \<Longrightarrow>
   takeWhile (\<lambda>y. y \<noteq> k) (xs @ ys) = takeWhile (\<lambda>y. y \<noteq> k) xs"
  by (induction xs) auto

lemma takeWhile_occ:
  "set (takeWhile (\<lambda>y. y \<noteq> k) (occ h)) = set (takeWhile (\<lambda>y. y \<noteq> k) h)"
proof (induction h rule: rev_induct)
  case Nil
  show ?case by (simp add: occ_def)
next
  case (snoc x h)
  show ?case
  proof (cases "k \<in> set h")
    case True
    then have "k \<in> set (occ h)" by (simp add: set_occ)
    then have "takeWhile (\<lambda>y. y \<noteq> k) (occ (h @ [x])) = takeWhile (\<lambda>y. y \<noteq> k) (occ h)"
      by (simp add: occ_snoc tw_in)
    moreover have "takeWhile (\<lambda>y. y \<noteq> k) (h @ [x]) = takeWhile (\<lambda>y. y \<noteq> k) h"
      using True by (rule tw_in)
    ultimately show ?thesis using snoc by simp
  next
    case False
    then have ko: "k \<notin> set (occ h)" by (simp add: set_occ)
    have l: "takeWhile (\<lambda>y. y \<noteq> k) (h @ [x]) = h @ takeWhile (\<lambda>y. y \<noteq> k) [x]"
      using False by (rule tw_all)
    have o: "takeWhile (\<lambda>y. y \<noteq> k) (occ h @ [x]) = occ h @ takeWhile (\<lambda>y. y \<noteq> k) [x]"
      using ko by (rule tw_all)
    have o': "takeWhile (\<lambda>y. y \<noteq> k) (occ h) = occ h"
      using tw_all[OF ko, of "[]"] by simp
    show ?thesis
    proof (cases "x \<in> set h")
      case True
      with False have "x \<noteq> k" by auto
      then have "set (takeWhile (\<lambda>y. y \<noteq> k) (h @ [x])) = set h"
        using True l by auto
      moreover have "set (takeWhile (\<lambda>y. y \<noteq> k) (occ (h @ [x]))) = set h"
      proof -
        have "occ (h @ [x]) = occ h" using True by (simp add: occ_snoc)
        then have "takeWhile (\<lambda>y. y \<noteq> k) (occ (h @ [x])) = occ h" by (simp only: o')
        then show ?thesis by (simp only: set_occ)
      qed
      ultimately show ?thesis by simp
    next
      case False
      then show ?thesis using l o by (simp add: occ_snoc set_occ)
    qed
  qed
qed

lemma majority_nonempty:
  assumes "h \<noteq> []"
  shows "\<exists>k. majority h = Some k \<and> k \<in> set h
     \<and> (\<forall>j\<in>set h. count_list h j \<le> count_list h k)
     \<and> (\<forall>j\<in>set h. count_list h j = count_list h k \<longrightarrow> first_pos h k \<le> first_pos h j)"
proof -
  let ?f = "\<lambda>k. int (count_list h k)"
  let ?es = "map (\<lambda>k. (k, ?f k)) (occ h)"
  from assms obtain x where x: "x \<in> set h" by (cases h) auto
  then have "(x, ?f x) \<in> set ?es" by (simp add: set_occ image_iff)
  moreover have "- 1 < ?f x" by simp
  ultimately have "\<exists>e\<in>set ?es. - 1 < snd e" by force
  from best_fold_first_max[OF this, of "- 1"] obtain pre k c post where
    p: "?es = pre @ (k, c) # post" "foldl best_step (- 1, - 1) ?es = (k, c)"
       "\<forall>e\<in>set pre. snd e < c" "\<forall>e\<in>set post. snd e \<le> c"
    by blast
  have maj: "majority h = Some k"
    using assms p(2) by (simp add: majority_def counts_table)
  have keys: "occ h = map fst pre @ k # map fst post"
  proof -
    have "map fst ?es = map fst (pre @ (k, c) # post)" by (simp only: p(1))
    then show ?thesis by (simp add: comp_def)
  qed
  have kc: "(k, c) \<in> set ?es" using p(1) by simp
  then have c: "c = ?f k" and kin: "k \<in> set h" by (auto simp: set_occ)
  have vals: "\<forall>e\<in>set ?es. snd e = ?f (fst e)" by auto
  have pre_lt: "\<forall>j\<in>set (map fst pre). ?f j < ?f k"
  proof
    fix j assume "j \<in> set (map fst pre)"
    then obtain e where e: "e \<in> set pre" "fst e = j" by auto
    then have "e \<in> set ?es" using p(1) by (metis Un_iff set_append)
    with vals have "snd e = ?f j" using e(2) by blast
    with p(3) e(1) c show "?f j < ?f k" by auto
  qed
  have post_le: "\<forall>j\<in>set (map fst post). ?f j \<le> ?f k"
  proof
    fix j assume "j \<in> set (map fst post)"
    then obtain e where e: "e \<in> set post" "fst e = j" by auto
    then have "e \<in> set ?es" using p(1) by (metis Un_iff set_append list.set_intros(2))
    with vals have "snd e = ?f j" using e(2) by blast
    with p(4) e(1) c show "?f j \<le> ?f k" by auto
  qed
  have all_le: "\<forall>j\<in>set h. count_list h j \<le> count_list h k"
  proof
    fix j assume "j \<in> set h"
    then have "j \<in> set (occ h)" by (simp add: set_occ)
    then have "j \<in> set (map fst pre) \<or> j = k \<or> j \<in> set (map fst post)"
      unfolding keys by auto
    then show "count_list h j \<le> count_list h k"
      using pre_lt post_le by force
  qed
  have knot: "k \<notin> set (map fst pre)"
    using distinct_occ[of h] unfolding keys by auto
  have tw: "takeWhile (\<lambda>y. y \<noteq> k) (occ h) = map fst pre"
    unfolding keys using tw_all[OF knot, of "k # map fst post"] by simp
  have first: "\<forall>j\<in>set h. count_list h j = count_list h k \<longrightarrow> first_pos h k \<le> first_pos h j"
  proof (intro ballI impI)
    fix j assume "j \<in> set h" and eq: "count_list h j = count_list h k"
    have "j \<notin> set (map fst pre)" using pre_lt eq by auto
    then have "j \<notin> set (takeWhile (\<lambda>y. y \<noteq> k) h)"
      using takeWhile_occ[of k h] tw by simp
    then show "first_pos h k \<le> first_pos h j" by (rule first_pos_le)
  qed
  from maj kin all_le first show ?thesis by blast
qed


text \<open>
  C5. \<open>majority\<close> returns no decision exactly when the history is empty; otherwise it returns
  a class of the history with the highest occurrence count, and among the classes with that
  count the one whose first occurrence in the history is earliest; the history
  \<open>[0,1,0,1]\<close> resolves to class 0.
\<close>

theorem majority_first_max:
  "(majority h = None \<longleftrightarrow> h = [])
   \<and> (h \<noteq> [] \<longrightarrow>
        (\<exists>k. majority h = Some k \<and> k \<in> set h
           \<and> (\<forall>j\<in>set h. count_list h j \<le> count_list h k)
           \<and> (\<forall>j\<in>set h. count_list h j = count_list h k \<longrightarrow> first_pos h k \<le> first_pos h j)))
   \<and> majority [0, 1, 0, 1] = Some 0"
proof -
  have a: "majority h = None \<longleftrightarrow> h = []"
    by (simp add: majority_def)
  have b: "majority [0, 1, 0, 1] = Some 0"
    by (simp add: majority_def count_step_def map_get_or0_def)
  from a b majority_nonempty[of h] show ?thesis by blast
qed

theorem majority_first_max_witness:
  "[1, 0, 0, 1] \<noteq> ([] :: int list)
   \<and> majority [1, 0, 0, 1] = Some 1
   \<and> count_list [1, 0, 0, 1] (0 :: int) = count_list [1, 0, 0, 1] (1 :: int)
   \<and> first_pos [1, 0, 0, 1] 1 \<le> first_pos [1, 0, 0, 1] 0"
proof -
  have m: "majority [1, 0, 0, 1] = Some 1"
    by (simp add: majority_def count_step_def map_get_or0_def)
  have c: "count_list [1, 0, 0, 1] (0 :: int) = count_list [1, 0, 0, 1] (1 :: int)"
    by simp
  from majority_first_max[of "[1, 0, 0, 1]"] m c
  have "first_pos [1, 0, 0, 1] 1 \<le> first_pos [1, 0, 0, 1] 0"
    by auto
  with m c show ?thesis by simp
qed

subsection \<open>At most one event per speech segment\<close>

lemma vote_and_fire_inSpeech: "inSpeech (fst (vote_and_fire s y)) = inSpeech s"
  by (simp add: vote_and_fire_def Let_def split: prod.splits option.splits)



lemma classify_inSpeech: "inSpeech (fst (classify s inp)) = inSpeech s"
  by (simp add: classify_def vote_and_fire_inSpeech split: reply.splits)










lemma length_session: "length (session rv s evs) = length evs"
  by (induction evs arbitrary: s) (simp_all add: Let_def)










subsection \<open>Voice-activity gate\<close>

text \<open>
  C8. The gate has two states. With a worker present, a tick in Silence enters Speech exactly
  when the RMS energy is at least the enter threshold 0.005, and a tick in Speech falls back
  to Silence exactly when the energy is below the exit threshold 0.003, which is strictly
  below the enter threshold; an energy between the thresholds leaves the state as it is.
  With gating disabled every tick counts as speech: the gate is open after the tick and the
  tick runs the classification.
\<close>

theorem vad_gate_hysteresis:
  "VAD_ENTER = 5 / 1000 \<and> VAD_EXIT = 3 / 1000 \<and> VAD_EXIT < VAD_ENTER
   \<and> (worker s \<and> \<not> inSpeech s \<longrightarrow>
        (inSpeech (fst (livePredictTick s inp)) \<longleftrightarrow> rms (slice inp) \<ge> VAD_ENTER))
   \<and> (worker s \<and> inSpeech s \<longrightarrow>
        (\<not> inSpeech (fst (livePredictTick s inp)) \<longleftrightarrow> rms (slice inp) < VAD_EXIT))
   \<and> (VAD_EXIT \<le> rms (slice inp) \<and> rms (slice inp) < VAD_ENTER \<longrightarrow>
        inSpeech (fst (livePredictTick s inp)) = inSpeech s)
   \<and> speechNow False (inSpeech s) (rms (slice inp))
   \<and> (worker s \<longrightarrow>
        inSpeech (fst (tick_with False s inp))
        \<and> tick_with False s inp
            = classify (if inSpeech s then s else resetVotes (s\<lparr>inSpeech := True\<rparr>)) inp)"
proof -
  have thr: "VAD_ENTER = 5 / 1000 \<and> VAD_EXIT = 3 / 1000 \<and> VAD_EXIT < VAD_ENTER"
    by (simp add: VAD_ENTER_def VAD_EXIT_def)
  have lt: "VAD_EXIT < VAD_ENTER" using thr by simp
  have enter: "worker s \<and> \<not> inSpeech s \<longrightarrow>
        (inSpeech (fst (livePredictTick s inp)) \<longleftrightarrow> rms (slice inp) \<ge> VAD_ENTER)"
    by (simp add: livePredictTick_def REQUIRE_VAD_def tick_with_def Let_def speechNow_def
        classify_inSpeech resetVotes_def)
  have leave: "worker s \<and> inSpeech s \<longrightarrow>
        (\<not> inSpeech (fst (livePredictTick s inp)) \<longleftrightarrow> rms (slice inp) < VAD_EXIT)"
    by (auto simp add: livePredictTick_def REQUIRE_VAD_def tick_with_def Let_def speechNow_def
        classify_inSpeech)
  have between: "VAD_EXIT \<le> rms (slice inp) \<and> rms (slice inp) < VAD_ENTER \<longrightarrow>
        inSpeech (fst (livePredictTick s inp)) = inSpeech s"
    by (auto simp add: livePredictTick_def REQUIRE_VAD_def tick_with_def Let_def speechNow_def
        classify_inSpeech)
  have off: "speechNow False (inSpeech s) (rms (slice inp))"
    by (simp add: speechNow_def)
  have open_gate: "worker s \<longrightarrow>
        inSpeech (fst (tick_with False s inp))
        \<and> tick_with False s inp
            = classify (if inSpeech s then s else resetVotes (s\<lparr>inSpeech := True\<rparr>)) inp"
    by (simp add: tick_with_def Let_def speechNow_def classify_inSpeech resetVotes_def)
  from thr enter leave between off open_gate show ?thesis by blast
qed

theorem vad_gate_hysteresis_witness:
  "worker fresh_session \<and> \<not> inSpeech fresh_session
   \<and> rms (slice loud_tick) \<ge> VAD_ENTER
   \<and> inSpeech (fst (livePredictTick fresh_session loud_tick))
   \<and> VAD_EXIT \<le> rms (slice murmur_tick) \<and> rms (slice murmur_tick) < VAD_ENTER
   \<and> \<not> inSpeech (fst (livePredictTick fresh_session murmur_tick))
   \<and> inSpeech (fst (livePredictTick (fresh_session\<lparr>inSpeech := True\<rparr>) murmur_tick))
   \<and> rms (slice silent_tick) < VAD_EXIT
   \<and> \<not> inSpeech (fst (livePredictTick (fresh_session\<lparr>inSpeech := True\<rparr>) silent_tick))
   \<and> inSpeech (fst (tick_with False fresh_session silent_tick))"
proof -
  have w: "worker fresh_session" "\<not> inSpeech fresh_session"
    "worker (fresh_session\<lparr>inSpeech := True\<rparr>)" "inSpeech (fresh_session\<lparr>inSpeech := True\<rparr>)"
    by (simp_all add: fresh_session_def)
  have loud: "rms (slice loud_tick) \<ge> VAD_ENTER"
    by (simp add: loud_tick_def rms_def rms_divisor_def VAD_ENTER_def)
  have "rms (slice murmur_tick) = 4 / 1000"
    using rms_single[of "4 / 1000"] by (simp add: murmur_tick_def)
  then have mur: "VAD_EXIT \<le> rms (slice murmur_tick)" "rms (slice murmur_tick) < VAD_ENTER"
    by (simp_all add: VAD_ENTER_def VAD_EXIT_def)
  have sil: "rms (slice silent_tick) < VAD_EXIT"
    by (simp add: silent_tick_def rms_def rms_divisor_def VAD_EXIT_def)
  note g = vad_gate_hysteresis
  from g[of fresh_session loud_tick] w loud
  have 1: "inSpeech (fst (livePredictTick fresh_session loud_tick))" by blast
  from g[of fresh_session murmur_tick] w mur
  have 2: "\<not> inSpeech (fst (livePredictTick fresh_session murmur_tick))" by auto
  from g[of "fresh_session\<lparr>inSpeech := True\<rparr>" murmur_tick] w mur
  have 3: "inSpeech (fst (livePredictTick (fresh_session\<lparr>inSpeech := True\<rparr>) murmur_tick))" by auto
  from g[of "fresh_session\<lparr>inSpeech := True\<rparr>" silent_tick] w sil
  have 4: "\<not> inSpeech (fst (livePredictTick (fresh_session\<lparr>inSpeech := True\<rparr>) silent_tick))" by blast
  from g[of fresh_session silent_tick] w
  have 5: "inSpeech (fst (tick_with False fresh_session silent_tick))" by blast
  from w loud mur sil 1 2 3 4 5 show ?thesis by blast
qed

section \<open>Properties of the classifier boundary\<close>

subsection \<open>One-hot labels\<close>

lemma one_hot_shape:
  "i < k \<Longrightarrow> (replicate k (0::real))[i := 1] = replicate i 0 @ [1] @ replicate (k - i - 1) 0"
  by (simp add: list_eq_iff_nth_eq nth_list_update nth_append nth_Cons')

lemma clamp_index_less: "1 \<le> k \<Longrightarrow> clamp_index k lab < k"
  by (auto simp: clamp_index_def)

lemma oneHotRow_shape:
  assumes "1 \<le> k"
  shows "oneHotRow k lab = replicate (clamp_index k lab) 0 @ [1] @ replicate (k - clamp_index k lab - 1) 0"
  using clamp_index_less[OF assms, of lab] by (simp add: oneHotRow_def Let_def one_hot_shape)

lemma sum_replicate0: "sum_list (replicate n (0::real)) = 0"
  by (induction n) simp_all

lemma ones_replicate0: "ones (replicate n 0) = 0"
  by (simp add: ones_def)

lemma oneHotRow_props:
  assumes "1 \<le> k"
  shows "length (oneHotRow k lab) = k \<and> sum_list (oneHotRow k lab) = 1 \<and> ones (oneHotRow k lab) = 1"
proof -
  let ?i = "clamp_index k lab"
  have i: "?i < k" using assms by (rule clamp_index_less)
  have s: "oneHotRow k lab = replicate ?i 0 @ [1] @ replicate (k - ?i - 1) 0"
    using assms by (rule oneHotRow_shape)
  have "length (oneHotRow k lab) = k" unfolding s using i by simp
  moreover have "sum_list (oneHotRow k lab) = 1" unfolding s by (simp add: sum_replicate0)
  moreover have "ones (oneHotRow k lab) = 1" unfolding s by (simp add: ones_def)
  ultimately show ?thesis by blast
qed

text \<open>
  C9. For class-index labels and a class count \<open>k \<ge> 1\<close>, \<open>oneHotify\<close> gives one row per
  label; the row is all zeros except for a 1 at the label's index clamped into \<open>[0, k - 1]\<close>
  (the index itself when it is in range), so it has length \<open>k\<close>, sums to 1 and has exactly
  one 1-valued entry. Labels given as rows are returned unchanged.
\<close>

theorem oneHotify_rows:
  "(1 \<le> k \<longrightarrow>
      length (oneHotify (Indices ys) k) = length ys
      \<and> (\<forall>i<length ys.
            oneHotify (Indices ys) k ! i = (replicate k 0)[clamp_index k (ys ! i) := 1]
            \<and> clamp_index k (ys ! i) < k
            \<and> (0 \<le> ys ! i \<and> ys ! i < int k \<longrightarrow> clamp_index k (ys ! i) = nat (ys ! i)))
      \<and> (\<forall>row\<in>set (oneHotify (Indices ys) k).
            length row = k \<and> sum_list row = 1 \<and> ones row = 1))
   \<and> oneHotify (Rows rows) k = rows"
proof -
  have pass: "oneHotify (Rows rows) k = rows" by simp
  have "length (oneHotify (Indices ys) k) = length ys" by simp
  moreover have "1 \<le> k \<longrightarrow> (\<forall>i<length ys.
            oneHotify (Indices ys) k ! i = (replicate k 0)[clamp_index k (ys ! i) := 1]
            \<and> clamp_index k (ys ! i) < k
            \<and> (0 \<le> ys ! i \<and> ys ! i < int k \<longrightarrow> clamp_index k (ys ! i) = nat (ys ! i)))"
    by (auto simp: oneHotRow_def Let_def clamp_index_less clamp_index_def)
  moreover have "1 \<le> k \<longrightarrow> (\<forall>row\<in>set (oneHotify (Indices ys) k).
            length row = k \<and> sum_list row = 1 \<and> ones row = 1)"
    using oneHotRow_props[of k] by auto
  ultimately show ?thesis using pass by blast
qed


theorem oneHotify_rows_witness:
  "(1 :: nat) \<le> 2
   \<and> oneHotify (Indices [0, 1, 7, - 3]) 2 = [[1, 0], [0, 1], [0, 1], [1, 0]]
   \<and> length (oneHotify (Indices [0, 1, 7, - 3]) 2 ! 2) = 2
   \<and> sum_list (oneHotify (Indices [0, 1, 7, - 3]) 2 ! 2) = 1
   \<and> ones (oneHotify (Indices [0, 1, 7, - 3]) 2 ! 2) = 1"
proof -
  let ?ys = "[0, 1, 7, - 3] :: int list"
  have v: "oneHotify (Indices ?ys) 2 = [[1, 0], [0, 1], [0, 1], [1, 0]]"
    by (simp add: oneHotRow_def clamp_index_def Let_def numeral_2_eq_2)
  have k: "(1 :: nat) \<le> 2" by simp
  have "oneHotify (Indices ?ys) 2 ! 2 \<in> set (oneHotify (Indices ?ys) 2)"
    by (rule nth_mem) simp
  with oneHotify_rows[of 2 ?ys] k
  have "length (oneHotify (Indices ?ys) 2 ! 2) = 2
        \<and> sum_list (oneHotify (Indices ?ys) 2 ! 2) = 1
        \<and> ones (oneHotify (Indices ?ys) 2 ! 2) = 1"
    by blast
  with v k show ?thesis by blast
qed

subsection \<open>The fitted scaler\<close>









subsection \<open>Requests\<close>

lemmas worker_defs = onmessage_def train_branch_def predict_branch_def export_branch_def
  import_branch_def the_payload_def no_payload_def post_ok_def post_caught_def run_training_def
  labels_empty_def outDim_of_def probs1D_def first_row_def modelToJSON_def loadModelFromJSON_def
  call_load_def

lemmas scaler_defs = fitScaler_def transformX_def transformOne_def sigma_at_def or_else_def
  EPS_def col_sum_def col_sq_def Let_def

lemmas memo_defs = memo_lib_def memo_fit_def memo_predict_def

lemma fit1: "fitScaler [[0], [2], [4]] = Inr \<lparr>mu = [2], sigma = [2]\<rparr>"
proof -
  have "sqrt 4 = 2" using real_sqrt_abs[of 2] by simp
  then show ?thesis by (simp add: scaler_defs)
qed

lemma good_train_result:
  "onmessage memo_lib empty_boundary good_train = (trained_boundary, post_ok ''t1'' Trained)"
  by (simp add: onmessage_def train_branch_def good_train_def the_payload_def no_payload_def
      labels_empty_def outDim_of_def fit1 memo_defs run_training_def empty_boundary_def
      trained_boundary_def transformX_def transformOne_def sigma_at_def or_else_def EPS_def Let_def)

lemma fit2: "fitScaler [[0], [1], [2]] = Inr \<lparr>mu = [1], sigma = [1]\<rparr>"
  by (simp add: scaler_defs)

lemma bad_train_result:
  "onmessage memo_lib trained_boundary bad_train
   = (\<lparr>model = Some ([], []), scaler = Some \<lparr>mu = [1], sigma = [1]\<rparr>\<rparr>,
      post_caught ''t2'' ''fit: X and Y differ in length'')"
  by (simp add: onmessage_def train_branch_def bad_train_def the_payload_def no_payload_def
      labels_empty_def outDim_of_def fit2 memo_defs run_training_def
      trained_boundary_def transformX_def transformOne_def sigma_at_def or_else_def EPS_def Let_def)

lemma predict_before:
  "onmessage memo_lib trained_boundary predict_req = (trained_boundary, post_ok ''p1'' (Scores [1, 0]))"
  by (simp add: worker_defs predict_req_def memo_defs trained_boundary_def
      transformOne_def sigma_at_def or_else_def EPS_def)

lemma predict_after:
  "snd (onmessage memo_lib \<lparr>model = Some ([], []), scaler = Some \<lparr>mu = [1], sigma = [1]\<rparr>\<rparr> predict_req)
   = post_ok ''p1'' (Scores [])"
  by (simp add: worker_defs predict_req_def memo_defs
      transformOne_def sigma_at_def or_else_def EPS_def)


text \<open>
  C7. A request whose action is none of the six known ones leaves model and scaler as they
  are and is answered with \<open>ok = False\<close>, the request's id and the non-empty message
  \<open>Unknown action: ...\<close>; any later request is then processed as if the unknown one had not
  been sent.
\<close>

theorem unknown_action_reported:
  assumes "action rq \<notin> {''init'', ''train'', ''predict'', ''export'', ''import'', ''reset''}"
  shows "onmessage lib st rq
         = (st, \<lparr>resp_id = req_id rq, ok = False, result = None,
                 error = Some (''Unknown action: '' @ action rq)\<rparr>)
     \<and> ''Unknown action: '' @ action rq \<noteq> []
     \<and> onmessage lib (fst (onmessage lib st rq)) rq' = onmessage lib st rq'"
proof -
  have a: "onmessage lib st rq
         = (st, \<lparr>resp_id = req_id rq, ok = False, result = None,
                 error = Some (''Unknown action: '' @ action rq)\<rparr>)"
    using assms by (simp add: onmessage_def)
  then have "fst (onmessage lib st rq) = st" by simp
  with a show ?thesis by simp
qed


theorem unknown_action_reported_witness:
  "action frobnicate_req \<notin> {''init'', ''train'', ''predict'', ''export'', ''import'', ''reset''}
   \<and> onmessage memo_lib trained_boundary frobnicate_req
       = (trained_boundary, \<lparr>resp_id = ''f1'', ok = False, result = None,
                               error = Some ''Unknown action: frobnicate''\<rparr>)
   \<and> onmessage memo_lib (fst (onmessage memo_lib trained_boundary frobnicate_req)) predict_req
       = (trained_boundary, post_ok ''p1'' (Scores [1, 0]))"
proof -
  have a: "action frobnicate_req
           \<notin> {''init'', ''train'', ''predict'', ''export'', ''import'', ''reset''}"
    by (simp add: frobnicate_req_def)
  from unknown_action_reported[OF a, of memo_lib trained_boundary predict_req] a
  show ?thesis
    by (simp add: predict_before frobnicate_req_def)
qed

subsection \<open>A failing train request\<close>

lemma train_missing_unchanged:
  assumes "action rq = ''train''" and "train_inputs_missing rq"
  shows "onmessage lib st rq = (st, post_caught (req_id rq) ''train: missing X or y'')"
  using assms
  by (auto simp add: onmessage_def train_branch_def train_inputs_missing_def Let_def
      split: option.splits)

lemma fitScaler_nonempty: "X \<noteq> [] \<Longrightarrow> \<exists>sc. fitScaler X = Inr sc"
  by (cases X) (simp_all add: fitScaler_def Let_def)

lemma train_present_scaler:
  assumes "action rq = ''train''" and "\<not> train_inputs_missing rq"
  shows "\<exists>X sc. p_X (the_payload rq) = Some X \<and> fitScaler X = Inr sc
           \<and> scaler (fst (onmessage lib st rq)) = Some sc
           \<and> (ok (snd (onmessage lib st rq)) \<longrightarrow> model (fst (onmessage lib st rq)) \<noteq> None)"
proof -
  from assms(2) obtain X y where xy: "p_X (the_payload rq) = Some X" "p_y (the_payload rq) = Some y"
    "X \<noteq> []" "\<not> labels_empty y"
    by (auto simp: train_inputs_missing_def split: option.splits)
  from fitScaler_nonempty[OF xy(3)] obtain sc where sc: "fitScaler X = Inr sc" by blast
  have "scaler (fst (onmessage lib st rq)) = Some sc
     \<and> (ok (snd (onmessage lib st rq)) \<longrightarrow> model (fst (onmessage lib st rq)) \<noteq> None)"
    using assms(1) xy sc
    by (simp add: onmessage_def train_branch_def Let_def run_training_def post_caught_def
        split: sum.splits option.splits)
  with xy(1) sc show ?thesis by blast
qed

text \<open>
  C3 as the code has it. A train request that fails because \<open>X\<close> or \<open>y\<close> is missing or empty
  leaves the boundary's state as it was, so that every later request is processed as before.
  A train request that fails for another reason has already stored the scaler fitted from
  its own \<open>X\<close>.
\<close>

theorem failed_train_state:
  assumes "action rq = ''train''" and "\<not> ok (snd (onmessage lib st rq))"
  shows "(train_inputs_missing rq \<longrightarrow>
            fst (onmessage lib st rq) = st
            \<and> onmessage lib (fst (onmessage lib st rq)) rq' = onmessage lib st rq')
       \<and> (\<not> train_inputs_missing rq \<longrightarrow>
            (\<exists>X sc. p_X (the_payload rq) = Some X \<and> fitScaler X = Inr sc
               \<and> scaler (fst (onmessage lib st rq)) = Some sc))"
proof (intro conjI impI)
  assume m: "train_inputs_missing rq"
  from train_missing_unchanged[OF assms(1) m, of lib st]
  show "fst (onmessage lib st rq) = st" by simp
  then show "onmessage lib (fst (onmessage lib st rq)) rq' = onmessage lib st rq'" by simp
next
  assume "\<not> train_inputs_missing rq"
  from train_present_scaler[OF assms(1) this, of lib st]
  show "\<exists>X sc. p_X (the_payload rq) = Some X \<and> fitScaler X = Inr sc
               \<and> scaler (fst (onmessage lib st rq)) = Some sc" by blast
qed


theorem failed_train_state_witness:
  "action empty_train = ''train''
   \<and> \<not> ok (snd (onmessage memo_lib trained_boundary empty_train))
   \<and> train_inputs_missing empty_train
   \<and> fst (onmessage memo_lib trained_boundary empty_train) = trained_boundary
   \<and> action bad_train = ''train''
   \<and> \<not> ok (snd (onmessage memo_lib trained_boundary bad_train))
   \<and> \<not> train_inputs_missing bad_train
   \<and> (\<exists>X sc. p_X (the_payload bad_train) = Some X \<and> fitScaler X = Inr sc
         \<and> scaler (fst (onmessage memo_lib trained_boundary bad_train)) = Some sc)"
proof -
  have a1: "action empty_train = ''train''" by (simp add: empty_train_def)
  have m1: "train_inputs_missing empty_train"
    by (simp add: train_inputs_missing_def empty_train_def the_payload_def no_payload_def)
  have f1: "\<not> ok (snd (onmessage memo_lib trained_boundary empty_train))"
    by (simp add: empty_train_def onmessage_def train_branch_def the_payload_def no_payload_def
        post_caught_def)
  have a2: "action bad_train = ''train''" by (simp add: bad_train_def)
  have m2: "\<not> train_inputs_missing bad_train"
    by (simp add: train_inputs_missing_def bad_train_def the_payload_def no_payload_def
        labels_empty_def)
  have f2: "\<not> ok (snd (onmessage memo_lib trained_boundary bad_train))"
    by (simp add: bad_train_result post_caught_def)
  from failed_train_state[OF a1 f1] m1
  have r1: "fst (onmessage memo_lib trained_boundary empty_train) = trained_boundary" by blast
  from failed_train_state[OF a2 f2] m2
  have r2: "\<exists>X sc. p_X (the_payload bad_train) = Some X \<and> fitScaler X = Inr sc
         \<and> scaler (fst (onmessage memo_lib trained_boundary bad_train)) = Some sc" by blast
  from a1 f1 m1 r1 a2 f2 m2 r2 show ?thesis by blast
qed

text \<open>
  C3 as stated fails: with a stored model and scaler, a train request whose fitting routine
  throws is answered with a failure, and afterwards the stored scaler and model are those of
  the failed request and the same predict request is answered differently.
\<close>

theorem failed_train_counterexample:
  "\<not> ok (snd (onmessage memo_lib trained_boundary bad_train))
   \<and> error (snd (onmessage memo_lib trained_boundary bad_train)) = Some ''fit: X and Y differ in length''
   \<and> fst (onmessage memo_lib trained_boundary bad_train) \<noteq> trained_boundary
   \<and> snd (onmessage memo_lib (fst (onmessage memo_lib trained_boundary bad_train)) predict_req)
       \<noteq> snd (onmessage memo_lib trained_boundary predict_req)"
  unfolding bad_train_result predict_before fst_conv snd_conv predict_after
  by (simp add: post_caught_def post_ok_def trained_boundary_def)

subsection \<open>Export, reset, import\<close>

lemma same_scores_probs1D:
  "same_scores lib m' m \<Longrightarrow> probs1D lib m' v = probs1D lib m v"
  unfolding same_scores_def probs1D_def by (elim conjE) (simp only:)

lemma restores_with_load:
  assumes "restores_with lib ctor j m"
  shows "\<exists>m0 m'. ctor j = Inr m0 \<and> same_scores lib m' m
           \<and> (case m_loadModelFromJSON lib m0 of
                 Some f \<Rightarrow> call_load (f j)
               | None \<Rightarrow>
                   (case m_fromJSON lib m0 of
                      Some f \<Rightarrow> call_load (f j)
                    | None \<Rightarrow> Inl ''Model lacks loadModelFromJSON/fromJSON'')) = Inr m'"
proof -
  from assms obtain m0 where m0: "ctor j = Inr m0"
    "m_loadModelFromJSON lib m0 \<noteq> None \<or> m_fromJSON lib m0 \<noteq> None"
    "\<forall>f. m_loadModelFromJSON lib m0 = Some f \<longrightarrow> restored lib (f j) m"
    "\<forall>f. m_fromJSON lib m0 = Some f \<longrightarrow> restored lib (f j) m"
    unfolding restores_with_def by blast
  show ?thesis
  proof (cases "m_loadModelFromJSON lib m0")
    case (Some f)
    with m0(3) have "restored lib (f j) m" by simp
    then have "call_load (f j) = Inr (fst (f j))" "same_scores lib (fst (f j)) m"
      by (simp_all add: restored_def call_load_def)
    with m0(1) Some show ?thesis by auto
  next
    case None
    with m0(2) obtain f where f: "m_fromJSON lib m0 = Some f" by auto
    with m0(4) have "restored lib (f j) m" by simp
    then have "call_load (f j) = Inr (fst (f j))" "same_scores lib (fst (f j)) m"
      by (simp_all add: restored_def call_load_def)
    with m0(1) None f show ?thesis by auto
  qed
qed

lemma serialisation_restores_load:
  assumes "serialisation_restores lib r m"
  shows "\<exists>j m'. r = Inr j \<and> loadModelFromJSON lib j = Inr m' \<and> same_scores lib m' m"
proof -
  from assms obtain j where j: "r = Inr j"
    "hasKernelELM lib \<longrightarrow> restores_with lib (newKernelELM_json lib) j m"
    "\<not> hasKernelELM lib \<longrightarrow> restores_with lib (newELM_json lib) j m"
    unfolding serialisation_restores_def by blast
  show ?thesis
  proof (cases "hasKernelELM lib")
    case True
    with j(2) have "restores_with lib (newKernelELM_json lib) j m" by simp
    from restores_with_load[OF this] obtain m0 m' where
      "newKernelELM_json lib j = Inr m0" "same_scores lib m' m"
      "(case m_loadModelFromJSON lib m0 of
          Some f \<Rightarrow> call_load (f j)
        | None \<Rightarrow>
            (case m_fromJSON lib m0 of
               Some f \<Rightarrow> call_load (f j)
             | None \<Rightarrow> Inl ''Model lacks loadModelFromJSON/fromJSON'')) = Inr m'"
      by blast
    then have "loadModelFromJSON lib j = Inr m' \<and> same_scores lib m' m"
      using True by (simp add: loadModelFromJSON_def)
    with j(1) show ?thesis by blast
  next
    case False
    with j(3) have "restores_with lib (newELM_json lib) j m" by simp
    from restores_with_load[OF this] obtain m0 m' where
      "newELM_json lib j = Inr m0" "same_scores lib m' m"
      "(case m_loadModelFromJSON lib m0 of
          Some f \<Rightarrow> call_load (f j)
        | None \<Rightarrow>
            (case m_fromJSON lib m0 of
               Some f \<Rightarrow> call_load (f j)
             | None \<Rightarrow> Inl ''Model lacks loadModelFromJSON/fromJSON'')) = Inr m'"
      by blast
    then have "loadModelFromJSON lib j = Inr m' \<and> same_scores lib m' m"
      using False by (simp add: loadModelFromJSON_def)
    with j(1) show ?thesis by blast
  qed
qed

text \<open>
  With a library that keeps the contract, the worker's own serialisation of a model loads
  again through the worker's own loader, into a model on which the worker's score function
  agrees with the original.
\<close>

lemma contract_roundtrip:
  assumes "lib_contract lib"
  shows "\<exists>j m'. modelToJSON lib (Some m) = Inr j \<and> loadModelFromJSON lib j = Inr m'
           \<and> (\<forall>v. probs1D lib m' v = probs1D lib m v)"
proof -
  from assms have c: "m_toJSON lib m \<noteq> None \<or> m_toJSONString lib m \<noteq> None"
    "\<forall>r. m_toJSON lib m = Some r \<longrightarrow> serialisation_restores lib r m"
    "\<forall>r. m_toJSONString lib m = Some r \<longrightarrow> serialisation_restores lib r m"
    unfolding lib_contract_def by blast+
  have "\<exists>r. modelToJSON lib (Some m) = r \<and> serialisation_restores lib r m"
  proof (cases "m_toJSON lib m")
    case (Some r)
    with c(2) show ?thesis by (simp add: modelToJSON_def)
  next
    case None
    with c(1) obtain r where r: "m_toJSONString lib m = Some r" by auto
    with c(3) None show ?thesis by (simp add: modelToJSON_def)
  qed
  then obtain r where r: "modelToJSON lib (Some m) = r" "serialisation_restores lib r m"
    by blast
  from serialisation_restores_load[OF r(2)] obtain j m' where
    "r = Inr j" "loadModelFromJSON lib j = Inr m'" "same_scores lib m' m" by blast
  with r(1) same_scores_probs1D[of lib m' m] show ?thesis by blast
qed

text \<open>
  C6. With a library that keeps the serialisation contract, after a successful train an
  export returns the serialised model together with the stored scaler and leaves the state
  alone, a reset clears the state, and an import of the exported model and scaler succeeds,
  restores that scaler and makes every predict request answer as it did before the reset.
\<close>

theorem export_reset_import_roundtrip:
  assumes rt: "lib_contract lib"
    and tr: "action tr = ''train''" "ok (snd (onmessage lib st0 tr))"
    and st1: "st1 = fst (onmessage lib st0 tr)"
    and ex: "action ex = ''export''"
    and rs: "action rs = ''reset''"
  shows "\<exists>j sc. onmessage lib st1 ex = (st1, post_ok (req_id ex) (Exported j (Some sc)))
           \<and> scaler st1 = Some sc
           \<and> fst (onmessage lib st1 rs) = \<lparr>model = None, scaler = None\<rparr>
           \<and> (\<forall>im. action im = ''import'' \<and> p_modelJSON (the_payload im) = Some j
                    \<and> p_scaler (the_payload im) = Some sc \<longrightarrow>
                 ok (snd (onmessage lib (fst (onmessage lib st1 rs)) im))
                 \<and> scaler (fst (onmessage lib (fst (onmessage lib st1 rs)) im)) = Some sc
                 \<and> (\<forall>pr. action pr = ''predict'' \<longrightarrow>
                       snd (onmessage lib (fst (onmessage lib (fst (onmessage lib st1 rs)) im)) pr)
                       = snd (onmessage lib st1 pr)))"
proof -
  have nm: "\<not> train_inputs_missing tr"
    using train_missing_unchanged[OF tr(1), of lib st0] tr(2)
    by (auto simp: post_caught_def)
  from train_present_scaler[OF tr(1) nm, of lib st0] tr(2) st1
  obtain sc m where s: "scaler st1 = Some sc" "model st1 = Some m" by auto
  from contract_roundtrip[OF rt, of m] obtain j m' where
    r: "modelToJSON lib (Some m) = Inr j" "loadModelFromJSON lib j = Inr m'"
    "\<forall>v. probs1D lib m' v = probs1D lib m v"
    by blast
  have e: "onmessage lib st1 ex = (st1, post_ok (req_id ex) (Exported j (Some sc)))"
    using ex s r(1) by (simp add: onmessage_def export_branch_def Let_def)
  have z: "fst (onmessage lib st1 rs) = \<lparr>model = None, scaler = None\<rparr>"
    using rs by (simp add: onmessage_def)
  have i: "\<forall>im. action im = ''import'' \<and> p_modelJSON (the_payload im) = Some j
                    \<and> p_scaler (the_payload im) = Some sc \<longrightarrow>
                 ok (snd (onmessage lib (fst (onmessage lib st1 rs)) im))
                 \<and> scaler (fst (onmessage lib (fst (onmessage lib st1 rs)) im)) = Some sc
                 \<and> (\<forall>pr. action pr = ''predict'' \<longrightarrow>
                       snd (onmessage lib (fst (onmessage lib (fst (onmessage lib st1 rs)) im)) pr)
                       = snd (onmessage lib st1 pr))"
  proof (intro allI impI)
    fix im :: "('b, 'c) request"
    assume a: "action im = ''import'' \<and> p_modelJSON (the_payload im) = Some j
                    \<and> p_scaler (the_payload im) = Some sc"
    have st3: "onmessage lib \<lparr>model = None, scaler = None\<rparr> im
               = (\<lparr>model = Some m', scaler = Some sc\<rparr>, post_ok (req_id im) Imported)"
      using a r(2) by (simp add: onmessage_def import_branch_def Let_def)
    have p: "\<forall>pr. action pr = ''predict'' \<longrightarrow>
               snd (onmessage lib \<lparr>model = Some m', scaler = Some sc\<rparr> pr) = snd (onmessage lib st1 pr)"
      using s r(3)
      by (auto simp add: onmessage_def predict_branch_def Let_def split: option.splits sum.splits)
    show "ok (snd (onmessage lib (fst (onmessage lib st1 rs)) im))
                 \<and> scaler (fst (onmessage lib (fst (onmessage lib st1 rs)) im)) = Some sc
                 \<and> (\<forall>pr. action pr = ''predict'' \<longrightarrow>
                       snd (onmessage lib (fst (onmessage lib (fst (onmessage lib st1 rs)) im)) pr)
                       = snd (onmessage lib st1 pr))"
      unfolding z st3 using p by (simp add: post_ok_def)
  qed
  from e s(1) z i show ?thesis by blast
qed

lemma memo_contract: "lib_contract memo_lib"
  by (simp add: lib_contract_def serialisation_restores_def restores_with_def restored_def
      same_scores_def memo_lib_def)

lemma memo_elm_contract: "lib_contract memo_elm_lib"
  by (simp add: lib_contract_def serialisation_restores_def restores_with_def restored_def
      same_scores_def memo_elm_lib_def memo_lib_def)

lemma good_train_elm_result:
  "onmessage memo_elm_lib empty_boundary good_train = (trained_boundary, post_ok ''t1'' Trained)"
  by (simp add: onmessage_def train_branch_def good_train_def the_payload_def no_payload_def
      labels_empty_def outDim_of_def fit1 memo_elm_lib_def memo_defs run_training_def
      empty_boundary_def trained_boundary_def transformX_def transformOne_def sigma_at_def
      or_else_def EPS_def Let_def)

lemma predict_before_elm:
  "onmessage memo_elm_lib trained_boundary predict_req
   = (trained_boundary, post_ok ''p1'' (Scores [1, 0]))"
  by (simp add: worker_defs predict_req_def memo_elm_lib_def memo_defs trained_boundary_def
      transformOne_def sigma_at_def or_else_def EPS_def)

lemma export_result:
  "onmessage memo_lib trained_boundary export_req
   = (trained_boundary,
      post_ok ''e1'' (Exported ([[- 1], [0], [1]], [[1, 0], [0, 1], [0, 1]])
                               (Some \<lparr>mu = [2], sigma = [2]\<rparr>)))"
  by (simp add: onmessage_def export_branch_def export_req_def modelToJSON_def memo_lib_def
      trained_boundary_def)

lemma export_elm_result:
  "onmessage memo_elm_lib trained_boundary export_req
   = (trained_boundary,
      post_ok ''e1'' (Exported ([[- 1], [0], [1]], [[1, 0], [0, 1], [0, 1]])
                               (Some \<lparr>mu = [2], sigma = [2]\<rparr>)))"
  by (simp add: onmessage_def export_branch_def export_req_def modelToJSON_def memo_elm_lib_def
      memo_lib_def trained_boundary_def)

theorem export_reset_import_roundtrip_witness:
  "lib_contract memo_lib
   \<and> action good_train = ''train''
   \<and> ok (snd (onmessage memo_lib empty_boundary good_train))
   \<and> trained_boundary = fst (onmessage memo_lib empty_boundary good_train)
   \<and> action export_req = ''export''
   \<and> action reset_req = ''reset''
   \<and> action import_req = ''import''
   \<and> action predict_req = ''predict''
   \<and> onmessage memo_lib trained_boundary export_req
       = (trained_boundary,
          post_ok ''e1'' (Exported ([[- 1], [0], [1]], [[1, 0], [0, 1], [0, 1]])
                                   (Some \<lparr>mu = [2], sigma = [2]\<rparr>)))
   \<and> snd (onmessage memo_lib
            (fst (onmessage memo_lib (fst (onmessage memo_lib trained_boundary reset_req)) import_req))
            predict_req)
       = post_ok ''p1'' (Scores [1, 0])
   \<and> lib_contract memo_elm_lib
   \<and> ok (snd (onmessage memo_elm_lib empty_boundary good_train))
   \<and> trained_boundary = fst (onmessage memo_elm_lib empty_boundary good_train)
   \<and> snd (onmessage memo_elm_lib
            (fst (onmessage memo_elm_lib (fst (onmessage memo_elm_lib trained_boundary reset_req))
                   import_req))
            predict_req)
       = post_ok ''p1'' (Scores [1, 0])"
proof -
  have acts: "action good_train = ''train''" "action export_req = ''export''"
    "action reset_req = ''reset''" "action import_req = ''import''"
    "action predict_req = ''predict''"
    by (simp_all add: good_train_def export_req_def reset_req_def import_req_def predict_req_def)
  have t: "ok (snd (onmessage memo_lib empty_boundary good_train))"
    "trained_boundary = fst (onmessage memo_lib empty_boundary good_train)"
    by (simp_all add: good_train_result post_ok_def)
  have t': "ok (snd (onmessage memo_elm_lib empty_boundary good_train))"
    "trained_boundary = fst (onmessage memo_elm_lib empty_boundary good_train)"
    by (simp_all add: good_train_elm_result post_ok_def)
  have pl: "p_modelJSON (the_payload import_req) = Some ([[- 1], [0], [1]], [[1, 0], [0, 1], [0, 1]])"
    "p_scaler (the_payload import_req) = Some \<lparr>mu = [2], sigma = [2]\<rparr>"
    by (simp_all add: import_req_def the_payload_def no_payload_def)
  from export_reset_import_roundtrip[OF memo_contract acts(1) t(1) t(2) acts(2) acts(3)]
  obtain j sc where r:
    "onmessage memo_lib trained_boundary export_req
       = (trained_boundary, post_ok (req_id export_req) (Exported j (Some sc)))"
    "\<forall>im. action im = ''import'' \<and> p_modelJSON (the_payload im) = Some j
            \<and> p_scaler (the_payload im) = Some sc \<longrightarrow>
          (\<forall>pr. action pr = ''predict'' \<longrightarrow>
             snd (onmessage memo_lib
                    (fst (onmessage memo_lib (fst (onmessage memo_lib trained_boundary reset_req)) im)) pr)
             = snd (onmessage memo_lib trained_boundary pr))"
    by blast
  from r(1) export_result have j: "j = ([[- 1], [0], [1]], [[1, 0], [0, 1], [0, 1]])"
    and sc: "sc = \<lparr>mu = [2], sigma = [2]\<rparr>"
    by (simp_all add: post_ok_def)
  from r(2) acts(4,5) pl j sc
  have "snd (onmessage memo_lib
            (fst (onmessage memo_lib (fst (onmessage memo_lib trained_boundary reset_req)) import_req))
            predict_req)
        = snd (onmessage memo_lib trained_boundary predict_req)"
    by blast
  then have p: "snd (onmessage memo_lib
            (fst (onmessage memo_lib (fst (onmessage memo_lib trained_boundary reset_req)) import_req))
            predict_req) = post_ok ''p1'' (Scores [1, 0])"
    by (simp add: predict_before)
  from export_reset_import_roundtrip[OF memo_elm_contract acts(1) t'(1) t'(2) acts(2) acts(3)]
  obtain j' sc' where r':
    "onmessage memo_elm_lib trained_boundary export_req
       = (trained_boundary, post_ok (req_id export_req) (Exported j' (Some sc')))"
    "\<forall>im. action im = ''import'' \<and> p_modelJSON (the_payload im) = Some j'
            \<and> p_scaler (the_payload im) = Some sc' \<longrightarrow>
          (\<forall>pr. action pr = ''predict'' \<longrightarrow>
             snd (onmessage memo_elm_lib
                    (fst (onmessage memo_elm_lib
                           (fst (onmessage memo_elm_lib trained_boundary reset_req)) im)) pr)
             = snd (onmessage memo_elm_lib trained_boundary pr))"
    by blast
  from r'(1) export_elm_result have j': "j' = ([[- 1], [0], [1]], [[1, 0], [0, 1], [0, 1]])"
    and sc': "sc' = \<lparr>mu = [2], sigma = [2]\<rparr>"
    by (simp_all add: post_ok_def)
  from r'(2) acts(4,5) pl j' sc'
  have "snd (onmessage memo_elm_lib
            (fst (onmessage memo_elm_lib (fst (onmessage memo_elm_lib trained_boundary reset_req))
                   import_req))
            predict_req)
        = snd (onmessage memo_elm_lib trained_boundary predict_req)"
    by blast
  then have p': "snd (onmessage memo_elm_lib
            (fst (onmessage memo_elm_lib (fst (onmessage memo_elm_lib trained_boundary reset_req))
                   import_req))
            predict_req) = post_ok ''p1'' (Scores [1, 0])"
    by (simp add: predict_before_elm)
  from memo_contract acts t export_result p memo_elm_contract t' p' show ?thesis by blast
qed

section \<open>Properties of the feature extractor\<close>

lemma shl1_cases: "shl1 k = - (2 ^ 31) \<or> (\<exists>c<31. shl1 k = 2 ^ c)"
proof -
  have "nat (k mod 32) < 32" by simp
  then have "nat (k mod 32) = 31 \<or> nat (k mod 32) < 31" by linarith
  then show ?thesis by (auto simp: shl1_def Let_def)
qed

lemma pow2_between:
  fixes c :: nat
  assumes "(256 :: int) \<le> 2 ^ c" and "(2 :: int) ^ c \<le> 4096"
  shows "(2 :: int) ^ c \<in> {256, 512, 1024, 2048, 4096}"
proof -
  have "(2::int) ^ 8 \<le> 2 ^ c" using assms(1) by simp
  then have lo: "8 \<le> c" by (simp only: power_increasing_iff) 
  have "(2::int) ^ c \<le> 2 ^ 12" using assms(2) by simp
  then have hi: "c \<le> 12" by (simp only: power_increasing_iff)
  from lo hi have "c = 8 \<or> c = 9 \<or> c = 10 \<or> c = 11 \<or> c = 12" by linarith
  then show ?thesis by auto
qed

lemma clamp_shl1:
  assumes "ch = shl1 a \<or> ch = shl1 b"
  shows "(let c1 = (if ch < 256 then 256 else ch) in if c1 > 4096 then 4096 else c1)
         \<in> {256, 512, 1024, 2048, 4096 :: int}"
proof -
  from assms shl1_cases have "ch = - (2 ^ 31) \<or> (\<exists>c<31. ch = 2 ^ c)" by metis
  then show ?thesis
  proof
    assume "ch = - (2 ^ 31)"
    then show ?thesis by simp
  next
    assume "\<exists>c<31. ch = 2 ^ c"
    then obtain c :: nat where c: "ch = 2 ^ c" by blast
    show ?thesis
    proof (cases "ch < 256")
      case True
      then show ?thesis by simp
    next
      case False
      show ?thesis
      proof (cases "ch > 4096")
        case True
        then show ?thesis using False by simp
      next
        case False
        with \<open>\<not> ch < 256\<close> have "256 \<le> (2::int) ^ c" "(2::int) ^ c \<le> 4096" using c by auto
        from pow2_between[OF this] show ?thesis using c False \<open>\<not> ch < 256\<close> by (simp add: Let_def)
      qed
    qed
  qed
qed

lemma pickFrameSize_values: "pickFrameSize sr \<in> {256, 512, 1024, 2048, 4096}"
proof -
  let ?t = "frame_target sr"
  let ?lo = "shl1 \<lfloor>log 2 (real_of_int ?t)\<rfloor>"
  let ?up = "shl1 \<lceil>log 2 (real_of_int ?t)\<rceil>"
  let ?ch = "if \<bar>?up - ?t\<bar> < \<bar>?lo - ?t\<bar> then ?up else ?lo"
  have "?ch = ?lo \<or> ?ch = ?up" by simp
  then have "?ch = shl1 \<lfloor>log 2 (real_of_int ?t)\<rfloor> \<or> ?ch = shl1 \<lceil>log 2 (real_of_int ?t)\<rceil>" .
  from clamp_shl1[OF this] show ?thesis
    unfolding pickFrameSize_def Let_def .
qed

lemma isPowerOfTwo_values:
  "n \<in> {256, 512, 1024, 2048, 4096} \<Longrightarrow> isPowerOfTwo n"
  by (auto simp: isPowerOfTwo_def)

lemma pickFrameSize_pow2: "isPowerOfTwo (pickFrameSize sr)"
  using pickFrameSize_values by (rule isPowerOfTwo_values)

lemma frame_mfcc_13:
  "meyda_13 my \<Longrightarrow> mf \<in> set (frame_mfcc my sr n frame) \<Longrightarrow> length mf = 13"
  by (auto simp: frame_mfcc_def meyda_13_def split: option.splits if_splits)

lemma slide_13:
  "meyda_13 my \<Longrightarrow> mf \<in> set (slide my sr sig fs hop i) \<Longrightarrow> length mf = 13"
proof (induction my sr sig fs hop i rule: slide.induct)
  case (1 my sr sig fs hop i)
  show ?case
  proof (cases "0 < hop \<and> i + fs \<le> length sig")
    case True
    then have "slide my sr sig fs hop i
       = frame_mfcc my sr (int fs) (subarray sig (int i) (int (i + fs))) @ slide my sr sig fs hop (i + hop)"
      by (subst slide.simps) simp
    with "1.prems" have "mf \<in> set (frame_mfcc my sr (int fs) (subarray sig (int i) (int (i + fs))))
        \<or> mf \<in> set (slide my sr sig fs hop (i + hop))" by auto
    then show ?thesis using "1.IH"[OF True "1.prems"(1)] frame_mfcc_13[OF "1.prems"(1)] by blast
  next
    case False
    then have "slide my sr sig fs hop i = []" by (subst slide.simps) auto
    with "1.prems" show ?thesis by simp
  qed
qed

lemma collect_13:
  "meyda_13 my \<Longrightarrow> mf \<in> set (collect_mfccs my sr sig) \<Longrightarrow> length mf = 13"
  by (auto simp: collect_mfccs_def Let_def slide_13 frame_mfcc_13 split: if_splits)

lemma length_aggregate: "length (aggregate mfccs) = 2 * length (hd mfccs)"
  by (simp add: aggregate_def Let_def)

lemma frame_mfcc_deaf: "frame_mfcc deaf_meyda sr n frame = []"
  by (simp add: frame_mfcc_def deaf_meyda_def)

lemma slide_deaf: "slide deaf_meyda sr sig fs hop i = []"
proof (induction deaf_meyda sr sig fs hop i rule: slide.induct)
  case (1 sr sig fs hop i)
  then show ?case
    by (subst slide.simps) (auto simp: frame_mfcc_deaf)
qed

lemma collect_deaf: "collect_mfccs deaf_meyda sr sig = []"
  by (simp add: collect_mfccs_def Let_def slide_deaf frame_mfcc_deaf)

lemma flat_meyda_13: "meyda_13 flat_meyda"
  by (simp add: meyda_13_def flat_meyda_def)

text \<open>At 44.1 kHz the target is 1102 samples and the nearest power of two is 1024.\<close>

lemma frame_target_44100: "frame_target 44100 = 1102"
  by (simp add: frame_target_def)

lemma floor_log2_1102: "\<lfloor>log 2 (1102 :: real)\<rfloor> = 10"
proof -
  have "\<lfloor>log (real 2) (real 1102)\<rfloor> = int 10"
    by (rule floor_log_nat_eq_if) simp_all
  then show ?thesis by simp
qed

lemma ceiling_log2_1102: "\<lceil>log 2 (1102 :: real)\<rceil> = 11"
proof -
  have "\<lceil>log (real 2) (real 1102)\<rceil> = int 10 + 1"
    by (rule ceiling_log_nat_eq_if) simp_all
  then show ?thesis by simp
qed

lemma pickFrameSize_44100: "pickFrameSize 44100 = 1024"
  by (simp add: pickFrameSize_def frame_target_44100 floor_log2_1102 ceiling_log2_1102
      shl1_def Let_def)

text \<open>
  C2. The frame size is a power of two between 256 and 4096 at every sample rate, so the
  non-power-of-two error is never raised. With a black box that returns 13 coefficients
  whenever it returns a non-empty array, the extractor returns a vector, of exactly 26
  entries, for every window, sample rate and options record; the vector is all zeros when
  no frame yields coefficients; and unless padding is switched off the prepared signal
  holds at least one frame, also for the empty window.
\<close>

theorem extract_total_26:
  "isPowerOfTwo (pickFrameSize sampleRate)
   \<and> 256 \<le> pickFrameSize sampleRate \<and> pickFrameSize sampleRate \<le> 4096
   \<and> (meyda_13 my \<longrightarrow>
        (\<exists>v. extractFeaturesMonoFloat32 my float32 sampleRate opts = Inr v \<and> length v = 26))
   \<and> (collect_mfccs my sampleRate (prepare float32 sampleRate opts) = [] \<longrightarrow>
        extractFeaturesMonoFloat32 my float32 sampleRate opts = Inr (replicate 26 0))
   \<and> (padToFrame opts \<noteq> Some False \<longrightarrow>
        int (length (prepare float32 sampleRate opts)) \<ge> pickFrameSize sampleRate)"
proof -
  let ?fs = "pickFrameSize sampleRate"
  let ?sig = "prepare float32 sampleRate opts"
  have p2: "isPowerOfTwo ?fs" by (rule pickFrameSize_pow2)
  have rng: "256 \<le> ?fs \<and> ?fs \<le> 4096" using pickFrameSize_values[of sampleRate] by auto
  have tot: "meyda_13 my \<longrightarrow>
        (\<exists>v. extractFeaturesMonoFloat32 my float32 sampleRate opts = Inr v \<and> length v = 26)"
  proof
    assume m: "meyda_13 my"
    let ?ms = "collect_mfccs my sampleRate ?sig"
    show "\<exists>v. extractFeaturesMonoFloat32 my float32 sampleRate opts = Inr v \<and> length v = 26"
    proof (cases "int (length ?sig) < ?fs \<or> ?ms = [] \<or> hd ?ms = []")
      case True
      then have "extractFeaturesMonoFloat32 my float32 sampleRate opts = Inr (replicate 26 0)"
        using p2 by (auto simp: extractFeaturesMonoFloat32_def Let_def)
      then show ?thesis by simp
    next
      case False
      then have e: "extractFeaturesMonoFloat32 my float32 sampleRate opts = Inr (aggregate ?ms)"
        using p2 by (auto simp: extractFeaturesMonoFloat32_def Let_def)
      from False have "hd ?ms \<in> set ?ms" by simp
      with m have "length (hd ?ms) = 13" by (rule collect_13)
      then have "length (aggregate ?ms) = 26" by (simp add: length_aggregate)
      with e show ?thesis by simp
    qed
  qed
  have zero: "collect_mfccs my sampleRate ?sig = [] \<longrightarrow>
        extractFeaturesMonoFloat32 my float32 sampleRate opts = Inr (replicate 26 0)"
    using p2 by (auto simp: extractFeaturesMonoFloat32_def Let_def)
  have pad: "padToFrame opts \<noteq> Some False \<longrightarrow> int (length ?sig) \<ge> ?fs"
    using rng by (auto simp: prepare_def Let_def subarray_def rel_index_def split: option.splits)
  from p2 rng tot zero pad show ?thesis by blast
qed

theorem extract_total_26_witness:
  "meyda_13 flat_meyda
   \<and> (\<exists>v. extractFeaturesMonoFloat32 flat_meyda [] 44100 MFCC_OPTS = Inr v \<and> length v = 26)
   \<and> collect_mfccs deaf_meyda 44100 (prepare [] 44100 MFCC_OPTS) = []
   \<and> extractFeaturesMonoFloat32 deaf_meyda [] 44100 MFCC_OPTS = Inr (replicate 26 0)
   \<and> padToFrame MFCC_OPTS \<noteq> Some False
   \<and> pickFrameSize 44100 \<le> int (length (prepare [] 44100 MFCC_OPTS))
   \<and> pickFrameSize 44100 = 1024"
proof -
  have p: "padToFrame MFCC_OPTS \<noteq> Some False" by (simp add: MFCC_OPTS_def)
  note t1 = extract_total_26[of 44100 flat_meyda "[]" MFCC_OPTS]
  note t2 = extract_total_26[of 44100 deaf_meyda "[]" MFCC_OPTS]
  from t1 flat_meyda_13
  have a: "\<exists>v. extractFeaturesMonoFloat32 flat_meyda [] 44100 MFCC_OPTS = Inr v \<and> length v = 26"
    by blast
  from t2 collect_deaf
  have b: "extractFeaturesMonoFloat32 deaf_meyda [] 44100 MFCC_OPTS = Inr (replicate 26 0)"
    by blast
  from t1 p have c: "pickFrameSize 44100 \<le> int (length (prepare [] 44100 MFCC_OPTS))"
    by blast
  from flat_meyda_13 a collect_deaf b p c pickFrameSize_44100 show ?thesis by blast
qed

end
